theory Spec2Isabelle
  imports Complex_Main "HOL-Library.AList"
begin

section \<open>The plot window of the ngspice simulation viewer\<close>

text \<open>
  A shallow embedding of \<^verbatim>\<open>src/ngspiceSimulation/plot_window.py\<close>: the state of the
  class \<^verbatim>\<open>plotWindow\<close> that its trace, cursor, timing-diagram and expression code reads
  and writes, and those methods as functions on that state.

  Conventions of the embedding.
  \<^item> Python floats are the type \<^typ>\<open>real\<close>: arithmetic is exact, rounding, infinities
    and NaN are not modelled.
  \<^item> A Python \<^verbatim>\<open>dict\<close> is an association list in insertion order; \<^verbatim>\<open>d[k] = v\<close> is
    \<^const>\<open>AList.update\<close> (the value is replaced in place, a new key goes to the end),
    \<^verbatim>\<open>d.get(k)\<close> is \<^const>\<open>map_of\<close>.
  \<^item> A raised exception is a value \<open>Inl e\<close>; a label of the window holds the number it
    displays (its formatting with \<^verbatim>\<open>:.6g\<close> is not modelled), \<open>None\<close> for the text shown
    when nothing is measured.
  \<^item> The data provider \<^verbatim>\<open>obj_dataext\<close> and the Qt/matplotlib widgets are outside the
    source: the fields read from them are fields of the state, and a widget starts with
    the value its constructor call leaves it.
  \<^item> matplotlib's \<^verbatim>\<open>plot\<close> and \<^verbatim>\<open>step\<close> raise \<^verbatim>\<open>ValueError\<close> when the x and y series
    differ in length and draw the series otherwise.
\<close>

subsection \<open>State\<close>

text \<open>The exception classes that occur. \<open>OtherException\<close> stands for any further class,
  by name, that does not derive from \<^verbatim>\<open>ArithmeticError\<close>.\<close>

datatype py_exception =
    IndexError | ValueError | AttributeError
  | ZeroDivisionError | OverflowError | FloatingPointError
  | SyntaxError | NameError | TypeError | OtherException string

text \<open>The classes that a clause \<^verbatim>\<open>except ArithmeticError\<close> catches: the built-in
  subclasses of \<^verbatim>\<open>ArithmeticError\<close>.\<close>

fun is_arithmetic_error :: "py_exception \<Rightarrow> bool" where
  "is_arithmetic_error ZeroDivisionError = True"
| "is_arithmetic_error OverflowError = True"
| "is_arithmetic_error FloatingPointError = True"
| "is_arithmetic_error e = False"

datatype analysis = AC_ANALYSIS | TRANSIENT_ANALYSIS | DC_ANALYSIS

text \<open>A matplotlib line: its data, its draw style (\<open>True\<close> for a step-after polyline,
  drawn by \<^verbatim>\<open>axes.step(..., where="post")\<close>) and its styling.\<close>

record line2d =
  xdata :: "real list"
  ydata :: "real list"
  steps_post :: bool
  linewidth :: real
  line_color :: string
  line_label :: string

text \<open>A cursor marker, \<^verbatim>\<open>axes.axvline(x=x_pos, color=color, ...)\<close>.\<close>

record vline =
  vline_x :: real
  vline_color :: string

record plot_window =
  obj_dataext_NBList :: "string list"
  obj_dataext_volts_length :: nat
  obj_dataext_x :: "real list"
  obj_dataext_y :: "real list list"
  plot_type :: analysis
  volts_length :: nat
  config_trace_colours :: "(string \<times> string) list"
  config_trace_thickness :: "(string \<times> real) list"
  config_trace_style :: "(string \<times> string) list"
  active_traces :: "(nat \<times> line2d) list"
  trace_visibility :: "(nat \<times> bool) list"
  trace_colors :: "(nat \<times> string) list"
  trace_thickness :: "(nat \<times> real) list"
  trace_style :: "(nat \<times> string) list"
  trace_names :: "(nat \<times> string) list"
  cursor_lines :: "vline option list"
  cursor_positions :: "real option list"
  timing_annotations :: "(nat \<times> real \<times> real \<times> real \<times> string) list"
  color_palette :: "string list"
  color :: "string list"
  logic_threshold :: "real option"
  vertical_spacing :: real
  threshold_spinbox_value :: real
  legend_check :: bool
  has_axes :: bool
  cursor1_label :: "real option"
  cursor2_label :: "real option"
  delta_label :: "real option"
  measure_label :: "real option"
  axes_xlim :: "(real \<times> real) option"
  axes_ylim :: "(real \<times> real) option"
  axes_yticks :: "real list"
  axes_yticklabels :: "string list"
  axes_xlabel :: "string option"
  axes_threshold_line :: "real option"
  axes_title :: "real option"

definition DEFAULT_LINE_THICKNESS :: real where
  "DEFAULT_LINE_THICKNESS = 15 / 10"

definition DEFAULT_VERTICAL_SPACING :: real where
  "DEFAULT_VERTICAL_SPACING = 12 / 10"

definition VIBRANT_COLOR_PALETTE :: "string list" where
  "VIBRANT_COLOR_PALETTE =
     [''#E53935'', ''#1E88E5'', ''#43A047'', ''#FB8C00'', ''#8E24AA'', ''#00ACC1'',
      ''#D81B60'', ''#6D4C41'', ''#FDD835'', ''#039BE5'', ''#C0CA33'', ''#37474F'']"

text \<open>The threshold spin box is created with \<^verbatim>\<open>setRange(-100, 100)\<close> and the special
  value text \<^verbatim>\<open>Auto\<close>, which Qt shows when the value is the minimum. The constructor
  never calls \<^verbatim>\<open>setValue\<close> on it, so it starts at the value of a new
  \<^verbatim>\<open>QDoubleSpinBox\<close>, 0.0.\<close>

definition threshold_spinbox_minimum :: real where
  "threshold_spinbox_minimum = - 100"

definition threshold_spinbox_initial :: real where
  "threshold_spinbox_initial = 0"

text \<open>The window after \<^verbatim>\<open>_initialize_data_structures\<close>, \<^verbatim>\<open>_initialize_configuration\<close>
  and \<^verbatim>\<open>create_main_frame\<close>, before any data is loaded. The configuration that
  \<^verbatim>\<open>load_config\<close> read is a parameter. The legend box is created unchecked
  (\<^verbatim>\<open>setChecked(False)\<close>); there are no axes yet. The analysis kind and the data are
  set by \<^verbatim>\<open>load_simulation_data\<close>; until then their fields hold a placeholder.\<close>

definition initial_window ::
  "(string \<times> string) list \<Rightarrow> (string \<times> real) list \<Rightarrow> (string \<times> string) list \<Rightarrow> plot_window" where
  "initial_window saved_colours saved_thickness saved_style =
     \<lparr> obj_dataext_NBList = [], obj_dataext_volts_length = 0,
       obj_dataext_x = [], obj_dataext_y = [],
       plot_type = DC_ANALYSIS, volts_length = 0,
       config_trace_colours = saved_colours,
       config_trace_thickness = saved_thickness,
       config_trace_style = saved_style,
       active_traces = [], trace_visibility = [], trace_colors = [],
       trace_thickness = [], trace_style = [], trace_names = [],
       cursor_lines = [], cursor_positions = [], timing_annotations = [],
       color_palette = VIBRANT_COLOR_PALETTE, color = [],
       logic_threshold = None, vertical_spacing = DEFAULT_VERTICAL_SPACING,
       threshold_spinbox_value = threshold_spinbox_initial,
       legend_check = False, has_axes = False,
       cursor1_label = None, cursor2_label = None, delta_label = None,
       measure_label = None,
       axes_xlim = None, axes_ylim = None, axes_yticks = [], axes_yticklabels = [],
       axes_xlabel = None, axes_threshold_line = None, axes_title = None \<rparr>"

subsection \<open>Cursors\<close>

text \<open>The last block of \<^verbatim>\<open>set_cursor\<close>: when the first two positions are present,
  the delta is shown and, for an AC analysis, the frequency \<open>1 / delta\<close>, or \<open>0\<close> for a
  delta of zero.\<close>

definition show_cursor_delta :: "plot_window \<Rightarrow> plot_window" where
  "show_cursor_delta w =
     (case take 2 (cursor_positions w) of
        [Some p0, Some p1] \<Rightarrow>
          (let delta = \<bar>p1 - p0\<bar>;
               w1 = w\<lparr> delta_label := Some delta \<rparr>
           in if plot_type w1 = AC_ANALYSIS
              then w1\<lparr> measure_label := Some (if delta \<noteq> 0 then 1 / delta else 0) \<rparr>
              else w1)
      | _ \<Rightarrow> w)"

text \<open>
  \<^verbatim>\<open>set_cursor(cursor_num, x_pos, axes)\<close>. The marker is appended when \<^verbatim>\<open>cursor_num\<close> is
  not an index of \<^verbatim>\<open>cursor_lines\<close> and stored at that index otherwise; the store into
  \<^verbatim>\<open>cursor_positions\<close> raises when that list is shorter. The label of the cursor is set
  and the measurements are shown.
\<close>

definition set_cursor :: "nat \<Rightarrow> real \<Rightarrow> plot_window \<Rightarrow> py_exception + plot_window" where
  "set_cursor cursor_num x_pos w =
     (let line = \<lparr> vline_x = x_pos,
                   vline_color = (if cursor_num = 0 then ''red'' else ''blue'') \<rparr>
      in if \<not> cursor_num \<ge> length (cursor_lines w) \<and> \<not> cursor_num < length (cursor_positions w)
         then Inl IndexError
         else
           let w1 = (if cursor_num \<ge> length (cursor_lines w)
                     then w\<lparr> cursor_lines := cursor_lines w @ [Some line],
                            cursor_positions := cursor_positions w @ [Some x_pos] \<rparr>
                     else w\<lparr> cursor_lines := (cursor_lines w)[cursor_num := Some line],
                            cursor_positions := (cursor_positions w)[cursor_num := Some x_pos] \<rparr>);
               w2 = (if cursor_num = 0 then w1\<lparr> cursor1_label := Some x_pos \<rparr>
                     else w1\<lparr> cursor2_label := Some x_pos \<rparr>)
           in Inr (show_cursor_delta w2))"

text \<open>\<^verbatim>\<open>clear_cursors\<close>: both lists are emptied and the four labels reset.\<close>

definition clear_cursors :: "plot_window \<Rightarrow> plot_window" where
  "clear_cursors w =
     w\<lparr> cursor_lines := [], cursor_positions := [],
        cursor1_label := None, cursor2_label := None,
        delta_label := None, measure_label := None \<rparr>"

text \<open>The two user actions on cursors, as \<^verbatim>\<open>on_canvas_click\<close> and the escape key and the
  clear button issue them, and a run of them from a given window.\<close>

datatype cursor_event = SetCursor nat real | ClearCursors

fun cursor_step :: "cursor_event \<Rightarrow> plot_window \<Rightarrow> py_exception + plot_window" where
  "cursor_step (SetCursor n p) w = set_cursor n p w"
| "cursor_step ClearCursors w = Inr (clear_cursors w)"

fun cursor_run :: "cursor_event list \<Rightarrow> plot_window \<Rightarrow> py_exception + plot_window" where
  "cursor_run [] w = Inr w"
| "cursor_run (e # es) w =
     (case cursor_step e w of Inl err \<Rightarrow> Inl err | Inr w' \<Rightarrow> cursor_run es w')"

subsection \<open>Configuration and colours\<close>

text \<open>The name a trace is saved and shown under:
  \<^verbatim>\<open>self.trace_names.get(idx, self.obj_dataext.NBList[idx])\<close>. The default is evaluated
  before the lookup, so an index outside \<^verbatim>\<open>NBList\<close> raises also when a name is stored.\<close>

definition display_name :: "plot_window \<Rightarrow> nat \<Rightarrow> py_exception + string" where
  "display_name w idx =
     (if idx < length (obj_dataext_NBList w)
      then Inr (case map_of (trace_names w) idx of
                  Some n \<Rightarrow> n | None \<Rightarrow> obj_dataext_NBList w ! idx)
      else Inl IndexError)"

text \<open>A dict comprehension \<^verbatim>\<open>{name(idx): v for idx, v in d.items()}\<close>: the entries are
  stored one by one, a repeated name keeps its first place and takes the last value.\<close>

fun by_name :: "plot_window \<Rightarrow> (nat \<times> 'v) list \<Rightarrow> (string \<times> 'v) list \<Rightarrow>
    py_exception + (string \<times> 'v) list" where
  "by_name w [] acc = Inr acc"
| "by_name w ((idx, v) # d) acc =
     (case display_name w idx of
        Inl e \<Rightarrow> Inl e
      | Inr n \<Rightarrow> by_name w d (AList.update n v acc))"

text \<open>\<^verbatim>\<open>save_config\<close>, as far as the window's own state goes: the three name-keyed
  maps of the configuration are rebuilt in turn from the current trace settings. The body
  runs under \<^verbatim>\<open>except Exception\<close>, which logs and returns: a failing comprehension keeps
  the maps assigned before it. Writing the file is outside the model.\<close>

definition save_config :: "plot_window \<Rightarrow> plot_window" where
  "save_config w =
     (case by_name w (trace_colors w) [] of
        Inl e \<Rightarrow> w
      | Inr cs \<Rightarrow>
          (let w1 = w\<lparr> config_trace_colours := cs \<rparr>
           in case by_name w1 (trace_thickness w1) [] of
                Inl e \<Rightarrow> w1
              | Inr ts \<Rightarrow>
                  (let w2 = w1\<lparr> config_trace_thickness := ts \<rparr>
                   in case by_name w2 (trace_style w2) [] of
                        Inl e \<Rightarrow> w2
                      | Inr ss \<Rightarrow> w2\<lparr> config_trace_style := ss \<rparr>)))"

text \<open>
  \<^verbatim>\<open>assign_trace_color(index)\<close>. The colours in use are the values of \<^verbatim>\<open>trace_colors\<close>;
  the first palette colour not among them is taken. With none left the hue is stepped by
  the golden ratio. \<^verbatim>\<open>QColor.fromHsvF(h, s, v).name()\<close> belongs to Qt and is the
  parameter \<open>fromHsvF_name\<close>.
\<close>

definition assign_trace_color ::
  "(real \<Rightarrow> real \<Rightarrow> real \<Rightarrow> string) \<Rightarrow> nat \<Rightarrow> plot_window \<Rightarrow> plot_window" where
  "assign_trace_color fromHsvF_name index w =
     (let used_colors = set (map snd (trace_colors w));
          available_colors = filter (\<lambda>c. c \<notin> used_colors) (color_palette w)
      in save_config
           (case available_colors of
              c # _ \<Rightarrow> w\<lparr> trace_colors := AList.update index c (trace_colors w) \<rparr>
            | [] \<Rightarrow>
                (let hue = frac (0.618033988749895 * real (length (trace_colors w)));
                     c = fromHsvF_name hue 0.7 0.8
                 in w\<lparr> trace_colors := AList.update index c (trace_colors w) \<rparr>)))"

subsection \<open>Loading a dataset\<close>

text \<open>What \<^verbatim>\<open>DataExtraction\<close> hands over after \<^verbatim>\<open>openFile\<close> and \<^verbatim>\<open>computeAxes\<close>: its
  class is not part of the source, so its results are a record.\<close>

record data_extraction =
  de_plot_type :: analysis
  de_numVals :: "int \<times> nat"
  de_NBList :: "string list"
  de_volts_length :: nat
  de_x :: "real list"
  de_y :: "real list list"

text \<open>The body of the loop of \<^verbatim>\<open>populate_waveform_list\<close> for trace \<open>i\<close> named
  \<open>node_name\<close>: colour, thickness and style come from the saved configuration when the
  name is a key there; the trace starts invisible. The list widget is not modelled.\<close>

definition populate_item :: "nat \<times> string \<Rightarrow> plot_window \<Rightarrow> plot_window" where
  "populate_item = (\<lambda>(i, node_name) w.
     (let saved_colors = config_trace_colours w;
          saved_thickness = config_trace_thickness w;
          saved_style = config_trace_style w;
          c = (case map_of saved_colors node_name of
                 Some sc \<Rightarrow> sc
               | None \<Rightarrow>
                   if i < length (color w) then color w ! i
                   else color_palette w ! (i mod length (color_palette w)));
          t = (case map_of saved_thickness node_name of
                 Some st \<Rightarrow> st | None \<Rightarrow> DEFAULT_LINE_THICKNESS);
          s = (case map_of saved_style node_name of
                 Some ss \<Rightarrow> ss | None \<Rightarrow> ''-'')
      in w\<lparr> trace_colors := AList.update i c (trace_colors w),
             trace_thickness := AList.update i t (trace_thickness w),
             trace_style := AList.update i s (trace_style w),
             trace_visibility := AList.update i False (trace_visibility w) \<rparr>))"

definition populate_waveform_list :: "plot_window \<Rightarrow> plot_window" where
  "populate_waveform_list w = fold populate_item (enumerate 0 (obj_dataext_NBList w)) w"

text \<open>\<^verbatim>\<open>load_simulation_data\<close>: the default colour list cycles through the palette for
  \<^verbatim>\<open>range(0, data_info[0] - 1)\<close>, the names are recorded, the list is populated.\<close>

definition load_simulation_data :: "data_extraction \<Rightarrow> plot_window \<Rightarrow> plot_window" where
  "load_simulation_data de w =
     (let w1 = w\<lparr> obj_dataext_NBList := de_NBList de,
                  obj_dataext_volts_length := de_volts_length de,
                  obj_dataext_x := de_x de,
                  obj_dataext_y := de_y de,
                  plot_type := de_plot_type de \<rparr>;
          w2 = w1\<lparr> color := color w1 @
                      map (\<lambda>i. color_palette w1 ! (i mod length (color_palette w1)))
                          [0 ..< nat (fst (de_numVals de) - 1)] \<rparr>;
          w3 = w2\<lparr> volts_length := snd (de_numVals de) \<rparr>;
          w4 = w3\<lparr> trace_names :=
                      fold (\<lambda>(i, name) d. AList.update i name d)
                           (enumerate 0 (obj_dataext_NBList w3)) (trace_names w3) \<rparr>
      in populate_waveform_list w4)"

subsection \<open>Time axis units\<close>

definition TIME_UNIT_THRESHOLD_NS :: real where
  "TIME_UNIT_THRESHOLD_NS = 1 / 10 ^ 6"

definition TIME_UNIT_THRESHOLD_US :: real where
  "TIME_UNIT_THRESHOLD_US = 1 / 10 ^ 3"

definition TIME_UNIT_THRESHOLD_MS :: real where
  "TIME_UNIT_THRESHOLD_MS = 1"

text \<open>The unit and the scale chosen for a span of the time axis; the micro sign of the
  source's unit string is written \<open>u\<close>.\<close>

definition time_unit_scale :: "real \<Rightarrow> string \<times> real" where
  "time_unit_scale time_span =
     (if time_span < TIME_UNIT_THRESHOLD_NS then (''ns'', 10 ^ 9)
      else if time_span < TIME_UNIT_THRESHOLD_US then (''us'', 10 ^ 6)
      else if time_span < TIME_UNIT_THRESHOLD_MS then (''ms'', 10 ^ 3)
      else (''s'', 1))"

text \<open>
  \<^verbatim>\<open>set_time_axis_label\<close>. The scaled axis is computed from \<^verbatim>\<open>obj_dataext.x\<close> and
  stored as the x-data of every active line; \<^verbatim>\<open>obj_dataext.x\<close> itself is not written.
  Every value of \<^verbatim>\<open>active_traces\<close> is a line object, which Python takes as true.
\<close>

definition set_time_axis_label :: "plot_window \<Rightarrow> plot_window" where
  "set_time_axis_label w =
     (if \<not> has_axes w then w
      else
        let time_data = obj_dataext_x w
        in if length time_data < 2 then w\<lparr> axes_xlabel := Some ''Time (s)'' \<rparr>
           else
             let time_span = last time_data - hd time_data;
                 (unit, scale) = time_unit_scale time_span;
                 w1 = (if scale \<noteq> 1
                       then let scaled_x = map (\<lambda>t. t * scale) time_data
                            in w\<lparr> active_traces :=
                                    map (\<lambda>(idx, line). (idx, line\<lparr> xdata := scaled_x \<rparr>))
                                        (active_traces w) \<rparr>
                       else w)
             in w1\<lparr> axes_xlabel := Some (''Time ('' @ unit @ '')'') \<rparr>)"

subsection \<open>Digital timing diagram\<close>

definition visible_indices :: "plot_window \<Rightarrow> nat list" where
  "visible_indices w = map fst (filter snd (trace_visibility w))"

text \<open>\<^verbatim>\<open>np.max\<close> and \<^verbatim>\<open>np.min\<close> of a one-dimensional array: a zero-size array raises
  \<^verbatim>\<open>ValueError\<close>.\<close>

fun np_max :: "real list \<Rightarrow> py_exception + real" where
  "np_max [] = Inl ValueError"
| "np_max (v # vs) = Inr (fold max vs v)"

fun np_min :: "real list \<Rightarrow> py_exception + real" where
  "np_min [] = Inl ValueError"
| "np_min (v # vs) = Inr (fold min vs v)"

text \<open>The samples of the given traces, one after the other
  (\<^verbatim>\<open>all_voltage_data.extend(self.obj_dataext.y[idx])\<close>).\<close>

fun collect_samples :: "real list list \<Rightarrow> nat list \<Rightarrow> py_exception + real list" where
  "collect_samples ys [] = Inr []"
| "collect_samples ys (idx # idxs) =
     (if idx < length ys
      then (case collect_samples ys idxs of
              Inl e \<Rightarrow> Inl e
            | Inr rest \<Rightarrow> Inr (ys ! idx @ rest))
      else Inl IndexError)"

text \<open>The traces whose samples decide the levels: the visible voltage traces, or every
  visible trace when there is none.\<close>

definition voltage_indices :: "plot_window \<Rightarrow> nat list" where
  "voltage_indices w =
     (if filter (\<lambda>i. i < obj_dataext_volts_length w) (visible_indices w) = []
      then visible_indices w
      else filter (\<lambda>i. i < obj_dataext_volts_length w) (visible_indices w))"

text \<open>
  The body of the drawing loop for the trace \<open>idx\<close> at position \<open>rank\<close> of the reversed
  visible list. \<open>yticks\<close> and \<open>ylabels\<close> are the two local lists of the method.
  \<^verbatim>\<open>axes.step(time_data, logic_offset, where="post", ...)\<close> raises when the trace has
  not as many samples as the time axis. The annotation keeps its position, the final raw
  sample it prints and its colour.
\<close>

definition plot_timing_trace ::
  "real \<Rightarrow> real \<Rightarrow> real \<Rightarrow> real list \<Rightarrow> real \<Rightarrow> nat \<times> nat \<Rightarrow>
   real list \<times> string list \<times> plot_window \<Rightarrow>
   py_exception + (real list \<times> string list \<times> plot_window)" where
  "plot_timing_trace vmax spacing threshold time_data annotation_offset_base =
     (\<lambda>(rank, idx) (yticks, ylabels, w).
     if \<not> idx < length (obj_dataext_y w) then Inl IndexError
     else
       let raw_data = obj_dataext_y w ! idx;
           logic_data = map (\<lambda>v. if v > threshold then vmax else 0) raw_data;
           logic_offset = map (\<lambda>v. v + real rank * spacing) logic_data;
           color = (case map_of (trace_colors w) idx of Some c \<Rightarrow> c | None \<Rightarrow> ''blue'');
           thickness = (case map_of (trace_thickness w) idx of
                          Some t \<Rightarrow> t | None \<Rightarrow> DEFAULT_LINE_THICKNESS)
       in case display_name w idx of
            Inl e \<Rightarrow> Inl e
          | Inr label \<Rightarrow>
              if length time_data \<noteq> length logic_offset then Inl ValueError
              else
              let line = \<lparr> xdata = time_data, ydata = logic_offset, steps_post = True,
                           linewidth = thickness, line_color = color, line_label = label \<rparr>;
                  w1 = w\<lparr> active_traces := AList.update idx line (active_traces w) \<rparr>;
                  y_center = real rank * spacing + vmax / 2
              in if raw_data = [] then Inl IndexError
                 else
                   let final_voltage = last raw_data;
                       annotation_offset =
                         annotation_offset_base * (1 + 0.1 * real (rank mod 3));
                       text_obj = (last time_data + annotation_offset, y_center,
                                   final_voltage, color)
                   in Inr (yticks @ [y_center], ylabels @ [label],
                           w1\<lparr> timing_annotations :=
                                 AList.update idx text_obj (timing_annotations w1) \<rparr>))"

fun plot_timing_traces ::
  "real \<Rightarrow> real \<Rightarrow> real \<Rightarrow> real list \<Rightarrow> real \<Rightarrow> (nat \<times> nat) list \<Rightarrow>
   real list \<times> string list \<times> plot_window \<Rightarrow>
   py_exception + (real list \<times> string list \<times> plot_window)" where
  "plot_timing_traces vmax spacing threshold time_data base [] acc = Inr acc"
| "plot_timing_traces vmax spacing threshold time_data base (ri # ris) acc =
     (case plot_timing_trace vmax spacing threshold time_data base ri acc of
        Inl e \<Rightarrow> Inl e
      | Inr acc' \<Rightarrow> plot_timing_traces vmax spacing threshold time_data base ris acc')"

text \<open>The part of \<^verbatim>\<open>plot_timing_diagram\<close> after the levels are known: the threshold is
  \<open>0.7 * vmax\<close> when the spin box is at its minimum and the value of the spin box
  otherwise; then the traces are drawn from the last visible one upwards, the axes are
  set up, the time axis is rescaled and the threshold line and the title are added.
  The method uses \<^verbatim>\<open>self.axes\<close> unguarded, so a window without axes raises.
  \<^verbatim>\<open>update_timing_tick_colors\<close> only recolours the tick labels and is left out.\<close>

definition plot_timing_levels :: "real \<Rightarrow> plot_window \<Rightarrow> py_exception + plot_window" where
  "plot_timing_levels vmax w =
     (let w1 = (if threshold_spinbox_value w = threshold_spinbox_minimum
                then w\<lparr> logic_threshold := Some (0.7 * vmax) \<rparr>
                else w\<lparr> logic_threshold := Some (threshold_spinbox_value w) \<rparr>);
          threshold = (if threshold_spinbox_value w = threshold_spinbox_minimum
                       then 0.7 * vmax else threshold_spinbox_value w);
          time_data = obj_dataext_x w1
      in if \<not> has_axes w1 then Inl AttributeError
         else if time_data = [] then Inl IndexError
         else
           let w2 = w1\<lparr> axes_xlim := Some (hd time_data, last time_data) \<rparr>;
               spacing = vertical_spacing w2 * vmax;
               annotation_offset_base = 0.01 * (last time_data - hd time_data)
           in case plot_timing_traces vmax spacing threshold time_data annotation_offset_base
                     (enumerate 0 (rev (visible_indices w))) ([], [], w2) of
                Inl e \<Rightarrow> Inl e
              | Inr (yticks, ylabels, w3) \<Rightarrow>
                  let w4 = w3\<lparr> axes_ylim :=
                                 Some (- 0.5 * vmax,
                                       real (length (visible_indices w)) * spacing + 0.1 * vmax) \<rparr>;
                      w5 = w4\<lparr> axes_yticks := yticks, axes_yticklabels := ylabels \<rparr>;
                      w6 = set_time_axis_label w5;
                      w7 = w6\<lparr> axes_threshold_line := Some threshold \<rparr>
                  in Inr (if \<not> legend_check w7
                          then w7\<lparr> axes_title := Some threshold \<rparr>
                          else w7))"

text \<open>
  \<^verbatim>\<open>plot_timing_diagram\<close>. Nothing is drawn without a visible trace. The levels
  \<open>vmin\<close> and \<open>vmax\<close> are taken over all samples of the deciding traces.
\<close>

definition plot_timing_diagram :: "plot_window \<Rightarrow> py_exception + plot_window" where
  "plot_timing_diagram w =
     (if visible_indices w = [] then Inr w
      else
        case collect_samples (obj_dataext_y w) (voltage_indices w) of
          Inl e \<Rightarrow> Inl e
        | Inr all_voltage_data \<Rightarrow>
            (case np_min all_voltage_data of
               Inl e \<Rightarrow> Inl e
             | Inr vmin \<Rightarrow>
                 (case np_max all_voltage_data of
                    Inl e \<Rightarrow> Inl e
                  | Inr vmax \<Rightarrow> plot_timing_levels vmax w)))"

text \<open>The level the specification calls \<open>globalMax\<close>, in its words and read from the
  registry itself: a trace is visible when \<^verbatim>\<open>trace_visibility\<close> holds \<open>True\<close> for it; the
  candidates are the visible voltage-like traces, or all visible traces when no visible
  trace is voltage-like; \<open>globalMax\<close> is the maximum over every sample of every
  candidate.\<close>

definition global_max :: "plot_window \<Rightarrow> real" where
  "global_max w =
     (let visible = Set.filter (\<lambda>i. map_of (trace_visibility w) i = Some True)
                      (fst ` set (trace_visibility w));
          voltage_like = Set.filter (\<lambda>i. i < obj_dataext_volts_length w) visible;
          candidates = (if voltage_like = {} then visible else voltage_like)
      in Max (\<Union>i \<in> candidates. set (obj_dataext_y w ! i)))"

subsection \<open>Functions of traces\<close>

text \<open>\<^verbatim>\<open>text.split(" ")\<close>: the text is cut at every single space, so two spaces in a row
  give an empty part and the empty text gives one empty part.\<close>

fun split_space :: "string \<Rightarrow> string \<Rightarrow> string list" where
  "split_space part [] = [part]"
| "split_space part (c # cs) =
     (if c = CHR '' '' then part # split_space [] cs else split_space (part @ [c]) cs)"

text \<open>\<^verbatim>\<open>" ".join(parts)\<close>.\<close>

fun join_space :: "string list \<Rightarrow> string" where
  "join_space [] = []"
| "join_space [p] = p"
| "join_space (p # ps) = p @ '' '' @ join_space ps"

definition function_parts :: "string \<Rightarrow> string list" where
  "function_parts func_input_text =
     (let parts = split_space [] func_input_text
      in if parts \<noteq> [] \<and> last parts = [] then butlast parts else parts)"

text \<open>The parts at the positions \<^verbatim>\<open>range(0, len(parts), 2)\<close>.\<close>

fun operand_parts :: "'a list \<Rightarrow> 'a list" where
  "operand_parts [] = []"
| "operand_parts [p] = [p]"
| "operand_parts (p # q # ps) = p # operand_parts ps"

text \<open>The parts at the odd positions, between the operands.\<close>

fun operator_parts :: "'a list \<Rightarrow> 'a list" where
  "operator_parts [] = []"
| "operator_parts [p] = []"
| "operator_parts (p # q # ps) = q # operator_parts ps"

text \<open>The first index at which a name stands in \<^verbatim>\<open>NBList\<close> (the inner loop with
  \<^verbatim>\<open>break\<close>); an operand that is no name adds no index.\<close>

fun find_trace :: "nat \<Rightarrow> string list \<Rightarrow> string \<Rightarrow> nat option" where
  "find_trace j [] part = None"
| "find_trace j (trace_name # names) part =
     (if part = trace_name then Some j else find_trace (Suc j) names part)"

definition find_trace_indices :: "string list \<Rightarrow> string list \<Rightarrow> nat list" where
  "find_trace_indices NBList parts =
     List.map_filter (find_trace 0 NBList) (operand_parts parts)"

text \<open>
  The expression for one sample: a part is either the decimal text of a sample,
  \<^verbatim>\<open>str(combo_data[trace_idx][j])\<close>, which reads back as that number, or a part of the
  user's text, left as it is.
\<close>

datatype token = Num real | Sym string

fun expression_parts ::
  "real list list \<Rightarrow> nat \<Rightarrow> nat \<Rightarrow> string list \<Rightarrow> py_exception + token list" where
  "expression_parts combo_data j i [] = Inr []"
| "expression_parts combo_data j i (p # ps) =
     (if even i \<and> i div 2 < length combo_data
      then (if j < length (combo_data ! (i div 2))
            then (case expression_parts combo_data j (Suc i) ps of
                    Inl e \<Rightarrow> Inl e
                  | Inr ts \<Rightarrow> Inr (Num (combo_data ! (i div 2) ! j) # ts))
            else Inl IndexError)
      else (case expression_parts combo_data j (Suc i) ps of
              Inl e \<Rightarrow> Inl e
            | Inr ts \<Rightarrow> Inr (Sym p # ts)))"

text \<open>
  Python's \<^verbatim>\<open>eval\<close> on the joined expression. It is the interpreter's own evaluator of
  arbitrary expressions. For the strings that are a number followed by binary operators
  and numbers, with the operators \<^verbatim>\<open>+\<close>, \<^verbatim>\<open>-\<close>, \<^verbatim>\<open>*\<close>, \<^verbatim>\<open>/\<close>, \<^verbatim>\<open>//\<close> and \<^verbatim>\<open>%\<close>, its result
  is written out: Python's precedence (\<^verbatim>\<open>*\<close>, \<^verbatim>\<open>/\<close>, \<^verbatim>\<open>//\<close>, \<^verbatim>\<open>%\<close> bind tighter, all
  associate to the left) and its \<^verbatim>\<open>ZeroDivisionError\<close> for a zero divisor. What the
  interpreter does with any other string (further operators such as \<^verbatim>\<open>**\<close>, parentheses,
  names, calls) is the parameter \<open>eval_other\<close>: the number the string evaluates to, or
  the exception raised.
\<close>

datatype binop = Add | Sub | Mul | Div | FloorDiv | Mod

definition binop_of :: "string \<Rightarrow> binop option" where
  "binop_of s =
     (if s = ''+'' then Some Add
      else if s = ''-'' then Some Sub
      else if s = ''*'' then Some Mul
      else if s = ''/'' then Some Div
      else if s = ''//'' then Some FloorDiv
      else if s = ''%'' then Some Mod
      else None)"

fun parse_chain :: "token list \<Rightarrow> (binop \<times> real) list option" where
  "parse_chain [] = Some []"
| "parse_chain (Sym s # Num a # ts) =
     (case binop_of s of
        None \<Rightarrow> None
      | Some b \<Rightarrow> map_option ((#) (b, a)) (parse_chain ts))"
| "parse_chain ts = None"

text \<open>\<open>eval_chain acc sg cur ops\<close>: \<open>acc\<close> is the value of the terms already closed,
  \<open>cur\<close> the value of the product being read and \<open>sg\<close> the sign it is added with.\<close>

fun eval_chain :: "real \<Rightarrow> real \<Rightarrow> real \<Rightarrow> (binop \<times> real) list \<Rightarrow> py_exception + real" where
  "eval_chain acc sg cur [] = Inr (acc + sg * cur)"
| "eval_chain acc sg cur ((Add, a) # ops) = eval_chain (acc + sg * cur) 1 a ops"
| "eval_chain acc sg cur ((Sub, a) # ops) = eval_chain (acc + sg * cur) (- 1) a ops"
| "eval_chain acc sg cur ((Mul, a) # ops) = eval_chain acc sg (cur * a) ops"
| "eval_chain acc sg cur ((Div, a) # ops) =
     (if a = 0 then Inl ZeroDivisionError else eval_chain acc sg (cur / a) ops)"
| "eval_chain acc sg cur ((FloorDiv, a) # ops) =
     (if a = 0 then Inl ZeroDivisionError
      else eval_chain acc sg (of_int \<lfloor>cur / a\<rfloor>) ops)"
| "eval_chain acc sg cur ((Mod, a) # ops) =
     (if a = 0 then Inl ZeroDivisionError
      else eval_chain acc sg (cur - a * of_int \<lfloor>cur / a\<rfloor>) ops)"

definition py_eval ::
  "(token list \<Rightarrow> py_exception + real) \<Rightarrow> token list \<Rightarrow> py_exception + real" where
  "py_eval eval_other ts =
     (case ts of
        Num a # rest \<Rightarrow>
          (case parse_chain rest of
             Some ops \<Rightarrow> eval_chain 0 1 a ops
           | None \<Rightarrow> eval_other ts)
      | _ \<Rightarrow> eval_other ts)"

text \<open>The loop over the samples of the first operand: the expression is built and
  evaluated for each index in turn, the first exception ends the loop.\<close>

fun evaluate_samples ::
  "(token list \<Rightarrow> py_exception + real) \<Rightarrow> real list list \<Rightarrow> string list \<Rightarrow> nat list \<Rightarrow>
   py_exception + real list" where
  "evaluate_samples eval_other combo_data parts [] = Inr []"
| "evaluate_samples eval_other combo_data parts (j # js) =
     (case expression_parts combo_data j 0 parts of
        Inl e \<Rightarrow> Inl e
      | Inr ts \<Rightarrow>
          (case py_eval eval_other ts of
             Inl e \<Rightarrow> Inl e
           | Inr v \<Rightarrow>
               (case evaluate_samples eval_other combo_data parts js of
                  Inl e \<Rightarrow> Inl e
                | Inr vs \<Rightarrow> Inr (v # vs))))"

text \<open>What \<^verbatim>\<open>plot_function\<close> hands to the user or to the render surface: a warning box,
  a parametric plot of one trace against another (with the axis label, \<open>True\<close> for
  voltage), a derived series over the time axis, or nothing when there are no axes.\<close>

datatype function_plot =
    Warning string
  | PlottedVs "real list" "real list" string bool
  | Plotted "real list" "real list" string
  | NothingDrawn

text \<open>
  \<^verbatim>\<open>plot_function\<close> for the text of the input field. The clause
  \<^verbatim>\<open>except (ArithmeticError, ZeroDivisionError)\<close> turns every arithmetic error of the
  evaluation into a warning and a return before anything is plotted; other exceptions
  leave the method. \<^verbatim>\<open>axes.plot\<close> raises when the two series differ in length.
\<close>

definition plot_function ::
  "(token list \<Rightarrow> py_exception + real) \<Rightarrow> string \<Rightarrow> plot_window \<Rightarrow>
   py_exception + function_plot" where
  "plot_function eval_other func_input_text w =
     (let parts = function_parts func_input_text
      in if length parts \<le> 2
         then Inr (Warning (''Too Few Arguments/SYNTAX Error!'' @ [CHR 0x0A] @ ''Refer Examples''))
         else
           let trace_indices = find_trace_indices (obj_dataext_NBList w) parts
           in if length trace_indices \<noteq> length parts div 2 + 1
              then Inr (Warning ''One of the operands doesn't belong to the above list of Nodes!!'')
              else if length parts = 3 \<and> parts ! 1 = ''vs''
              then (if has_axes w
                    then (if \<not> trace_indices ! 0 < length (obj_dataext_y w) \<or>
                             \<not> trace_indices ! 1 < length (obj_dataext_y w)
                          then Inl IndexError
                          else
                            let x_data = obj_dataext_y w ! (trace_indices ! 0);
                                y_data = obj_dataext_y w ! (trace_indices ! 1)
                            in if length x_data \<noteq> length y_data then Inl ValueError
                               else Inr (PlottedVs x_data y_data
                                           (parts ! 0 @ '' vs '' @ parts ! 2)
                                           (fold max (tl trace_indices) (hd trace_indices)
                                              < volts_length w)))
                    else Inr NothingDrawn)
              else
                let voltage_operands = filter (\<lambda>idx. idx < volts_length w) trace_indices;
                    current_operands = filter (\<lambda>idx. idx \<ge> volts_length w) trace_indices
                in if voltage_operands \<noteq> [] \<and> current_operands \<noteq> []
                   then Inr (Warning ''Do not combine Voltage and Current!!'')
                   else if list_ex (\<lambda>idx. \<not> idx < length (obj_dataext_y w)) trace_indices
                   then Inl IndexError
                   else
                     let combo_data = map (\<lambda>idx. obj_dataext_y w ! idx) trace_indices
                     in case evaluate_samples eval_other combo_data parts
                               [0 ..< length (combo_data ! 0)] of
                          Inl e \<Rightarrow>
                            (if is_arithmetic_error e
                             then Inr (Warning ''Division by zero or arithmetic error!'')
                             else Inl e)
                        | Inr final_result \<Rightarrow>
                            if has_axes w
                            then (if length (obj_dataext_x w) \<noteq> length final_result
                                  then Inl ValueError
                                  else Inr (Plotted (obj_dataext_x w) final_result
                                              (join_space parts)))
                            else Inr NothingDrawn)"

subsection \<open>The four-operator arithmetic of the specification\<close>

text \<open>
  The restricted grammar in the specification's words, for expressions without
  parentheses: an expression is a sum or difference of terms, a term is a product or
  quotient of numbers, both associate to the left. \<open>aval\<close> is its value, \<open>None\<close> for a
  division by zero; \<open>flatten\<close> gives the token sequence an expression is written as.
\<close>

datatype aexp =
    Lit real
  | Plus aexp aexp
  | Minus aexp aexp
  | Times aexp aexp
  | Divide aexp aexp

fun aval :: "aexp \<Rightarrow> real option" where
  "aval (Lit a) = Some a"
| "aval (Plus l r) =
     (case (aval l, aval r) of (Some x, Some y) \<Rightarrow> Some (x + y) | _ \<Rightarrow> None)"
| "aval (Minus l r) =
     (case (aval l, aval r) of (Some x, Some y) \<Rightarrow> Some (x - y) | _ \<Rightarrow> None)"
| "aval (Times l r) =
     (case (aval l, aval r) of (Some x, Some y) \<Rightarrow> Some (x * y) | _ \<Rightarrow> None)"
| "aval (Divide l r) =
     (case (aval l, aval r) of
        (Some x, Some y) \<Rightarrow> if y = 0 then None else Some (x / y)
      | _ \<Rightarrow> None)"

fun flatten :: "aexp \<Rightarrow> token list" where
  "flatten (Lit a) = [Num a]"
| "flatten (Plus l r) = flatten l @ Sym ''+'' # flatten r"
| "flatten (Minus l r) = flatten l @ Sym ''-'' # flatten r"
| "flatten (Times l r) = flatten l @ Sym ''*'' # flatten r"
| "flatten (Divide l r) = flatten l @ Sym ''/'' # flatten r"

fun is_term :: "aexp \<Rightarrow> bool" where
  "is_term (Lit a) = True"
| "is_term (Times l (Lit a)) = is_term l"
| "is_term (Divide l (Lit a)) = is_term l"
| "is_term e = False"

fun is_expr :: "aexp \<Rightarrow> bool" where
  "is_expr (Plus l r) = (is_expr l \<and> is_term r)"
| "is_expr (Minus l r) = (is_expr l \<and> is_term r)"
| "is_expr e = is_term e"

text \<open>The operator expression with every operand replaced by its sample at index \<open>j\<close>:
  the operand at position \<open>i\<close> of the parts is the \<open>i div 2\<close>-th operand.\<close>

definition substituted :: "string list \<Rightarrow> real list list \<Rightarrow> nat \<Rightarrow> token list" where
  "substituted parts samples j =
     map (\<lambda>(i, p). if even i then Num (samples ! (i div 2) ! j) else Sym p)
         (enumerate 0 parts)"

text \<open>The sample series of the operands of a function text, in the order written.\<close>

definition operand_samples :: "string \<Rightarrow> plot_window \<Rightarrow> real list list" where
  "operand_samples func_input_text w =
     map (\<lambda>idx. obj_dataext_y w ! idx)
         (find_trace_indices (obj_dataext_NBList w) (function_parts func_input_text))"

subsection \<open>Example datasets\<close>

text \<open>A transient dataset of thirteen voltage traces, one more than the palette has
  colours, with two samples each.\<close>

definition thirteen_traces :: data_extraction where
  "thirteen_traces =
     \<lparr> de_plot_type = TRANSIENT_ANALYSIS, de_numVals = (14, 13),
       de_NBList = [''a'', ''b'', ''c'', ''d'', ''e'', ''f'', ''g'', ''h'', ''i'', ''j'',
                    ''k'', ''l'', ''m''],
       de_volts_length = 13, de_x = [0, 1], de_y = replicate 13 [0, 1] \<rparr>"

text \<open>A transient dataset of two voltage traces \<open>a\<close> and \<open>b\<close>.\<close>

definition two_traces :: data_extraction where
  "two_traces =
     \<lparr> de_plot_type = TRANSIENT_ANALYSIS, de_numVals = (3, 2),
       de_NBList = [''a'', ''b''],
       de_volts_length = 2, de_x = [0, 1, 2], de_y = [[0, 5, 0], [5, 0, 4]] \<rparr>"

text \<open>A transient dataset of three voltage traces \<open>A\<close>, \<open>H\<close> and \<open>B\<close>, loaded into a
  fresh window in which the user has then selected \<open>A\<close> and \<open>B\<close> (\<^verbatim>\<open>on_waveform_toggle\<close>
  stores \<open>True\<close> for them) and left \<open>H\<close> hidden. The window is taken at the point where
  \<^verbatim>\<open>refresh_plot\<close> calls \<^verbatim>\<open>plot_timing_diagram\<close>: on new axes, with no active trace. The
  samples of \<open>A\<close> and \<open>B\<close> lie between 0 and 5, those of \<open>H\<close> are higher; nobody has
  touched the threshold spin box.\<close>

definition three_traces :: data_extraction where
  "three_traces =
     \<lparr> de_plot_type = TRANSIENT_ANALYSIS, de_numVals = (4, 3),
       de_NBList = [''A'', ''H'', ''B''],
       de_volts_length = 3, de_x = [0, 1, 2],
       de_y = [[0, 5, 2], [9, 9, 9], [5, 0, 4]] \<rparr>"

definition timing_window :: plot_window where
  "timing_window =
     (load_simulation_data three_traces (initial_window [] [] []))
       \<lparr> trace_visibility := [(0, True), (1, False), (2, True)], has_axes := True \<rparr>"

text \<open>The dataset of the specification's example for functions, \<open>v1 = [1, 2, 3]\<close> and
  \<open>v2 = [10, 20, 30]\<close>, in a window with axes; and the same with a zero sample in
  \<open>v2\<close>.\<close>

definition function_traces :: plot_window where
  "function_traces =
     (load_simulation_data
        \<lparr> de_plot_type = TRANSIENT_ANALYSIS, de_numVals = (3, 2),
          de_NBList = [''v1'', ''v2''],
          de_volts_length = 2, de_x = [0, 1, 2], de_y = [[1, 2, 3], [10, 20, 30]] \<rparr>
        (initial_window [] [] []))
       \<lparr> has_axes := True \<rparr>"

definition function_traces_zero :: plot_window where
  "function_traces_zero = function_traces \<lparr> obj_dataext_y := [[1, 2, 3], [10, 0, 30]] \<rparr>"

section \<open>Properties\<close>

subsection \<open>Cursor measurements\<close>

text \<open>The specification's example for cursors in the order it is written, under an AC
  analysis: cursor 0 at 2.0 and then cursor 1 at 5.0 show a delta of 3 and a frequency
  of one third.\<close>

lemma set_cursor_primary_first:
  "map_sum id (\<lambda>w. (cursor1_label w, cursor2_label w, delta_label w, measure_label w))
     (cursor_run [SetCursor 0 2, SetCursor 1 5]
        ((initial_window [] [] [])\<lparr> plot_type := AC_ANALYSIS \<rparr>))
   = Inr (Some 2, Some 5, Some 3, Some (1 / 3))"
  by (simp add: set_cursor_def show_cursor_delta_def initial_window_def Let_def)

text \<open>
  Claim C5 says that whenever both cursor slots hold a position the delta
  \<open>\<bar>pos1 - pos0\<bar>\<close> is reported, and under an AC analysis the frequency \<open>1 / delta\<close>. The
  code measures the first two cells of \<^verbatim>\<open>cursor_positions\<close>, and a cursor set for the
  first time is appended to that list whatever its number. On a window without cursors
  under an AC analysis, cursor 1 at 5.0 and then cursor 0 at 2.0 leave both cursor
  labels showing a position (2 and 5), one stored position, and neither a delta nor a
  frequency. And cursor 1 at 5.0 and then again at 7.0 shows the delta 2 and the
  frequency one half although cursor 0 was never set.
\<close>

theorem cursor_delta_secondary_first:
  "map_sum id (\<lambda>w. (cursor1_label w, cursor2_label w, cursor_positions w,
                     delta_label w, measure_label w))
     (cursor_run [SetCursor 1 5, SetCursor 0 2]
        ((initial_window [] [] [])\<lparr> plot_type := AC_ANALYSIS \<rparr>))
   = Inr (Some 2, Some 5, [Some 2], None, None) \<and>
   map_sum id (\<lambda>w. (cursor1_label w, cursor2_label w, cursor_positions w,
                     delta_label w, measure_label w))
     (cursor_run [SetCursor 1 5, SetCursor 1 7]
        ((initial_window [] [] [])\<lparr> plot_type := AC_ANALYSIS \<rparr>))
   = Inr (None, Some 7, [Some 5, Some 7], Some 2, Some (1 / 2))"
  by (simp add: set_cursor_def show_cursor_delta_def initial_window_def Let_def)

text \<open>
  Claim C6 says that \<open>set_cursor s x\<close> stores \<open>x\<close> at slot \<open>s\<close> and leaves the other slot
  alone, whatever the order in which the slots are first set. The code appends when
  \<open>cursor_num\<close> is not yet an index of the list: on a window without cursors, cursor 1
  at 5.0 lands at index 0, and cursor 0 at 2.0 then replaces it. One position and one
  (red) marker remain, the label of cursor 2 still shows 5, and no delta is shown.
\<close>

theorem set_cursor_secondary_first:
  "map_sum id (\<lambda>w. (cursor_positions w, cursor_lines w, cursor2_label w, delta_label w))
     (cursor_run [SetCursor 1 5, SetCursor 0 2] (initial_window [] [] []))
   = Inr ([Some 2], [Some \<lparr> vline_x = 2, vline_color = ''red'' \<rparr>], Some 5, None)"
  by (simp add: set_cursor_def show_cursor_delta_def initial_window_def Let_def)

subsection \<open>Colour assignment\<close>

lemma save_config_trace_colors [simp]: "trace_colors (save_config w) = trace_colors w"
  by (simp add: save_config_def Let_def split: sum.splits)

lemma first_unused:
  "filter (\<lambda>c. c \<notin> U) pal = c # rest \<Longrightarrow>
   \<exists>pre post. pal = pre @ c # post \<and> set pre \<subseteq> U \<and> c \<notin> U"
proof (induction pal)
  case Nil
  then show ?case by simp
next
  case (Cons p pal)
  show ?case
  proof (cases "p \<in> U")
    case True
    with Cons obtain pre post where "pal = pre @ c # post" "set pre \<subseteq> U" "c \<notin> U"
      by auto
    with True have "p # pal = (p # pre) @ c # post \<and> set (p # pre) \<subseteq> U \<and> c \<notin> U"
      by simp
    then show ?thesis by blast
  next
    case False
    with Cons.prems have "p = c" by simp
    with False have "p # pal = [] @ c # pal \<and> set [] \<subseteq> U \<and> c \<notin> U" by simp
    then show ?thesis by blast
  qed
qed

lemma update_other_entries:
  "(j, v) \<in> set (AList.update k c al) \<Longrightarrow> j \<noteq> k \<Longrightarrow> (j, v) \<in> set al"
  by (induction al) (auto split: if_splits)

lemma assign_trace_color_available:
  assumes f: "filter (\<lambda>c. c \<notin> set (map snd (trace_colors w))) (color_palette w) = c # rest"
  shows "trace_colors (assign_trace_color fromHsvF_name index w)
              = AList.update index c (trace_colors w)"
  unfolding assign_trace_color_def Let_def f by simp

lemma assign_trace_color_exhausted:
  assumes f: "filter (\<lambda>c. c \<notin> set (map snd (trace_colors w))) (color_palette w) = []"
  shows "trace_colors (assign_trace_color fromHsvF_name index w)
           = AList.update index
               (fromHsvF_name (frac (0.618033988749895 * real (length (trace_colors w)))) 0.7 0.8)
               (trace_colors w)"
  unfolding assign_trace_color_def Let_def f by simp

lemma populate_item_trace_colors:
  "map_of (trace_colors (populate_item (k, n) w)) i =
     (if i = k
      then Some (case map_of (config_trace_colours w) n of
                   Some sc \<Rightarrow> sc
                 | None \<Rightarrow> if k < length (color w) then color w ! k
                           else color_palette w ! (k mod length (color_palette w)))
      else map_of (trace_colors w) i)"
  by (simp add: populate_item_def Let_def update_conv')

text \<open>
  Claim C8, as the code has it. Take a state in which some palette colour is not the
  colour of any tracked trace. The allocator \<^verbatim>\<open>assign_trace_color\<close> gives the trace the
  first such colour in palette order (every palette colour before it is in use), and
  afterwards no other entry of \<^verbatim>\<open>trace_colors\<close> holds that colour. The assignment made
  at load, the loop body of \<^verbatim>\<open>populate_waveform_list\<close>, gives the trace the saved colour
  of its name, or else the default colour of its index (the palette colour at the
  index modulo the palette size), whatever colours are in use.
\<close>

theorem assign_trace_color_unused:
  assumes "\<exists>c \<in> set (color_palette w). c \<notin> snd ` set (trace_colors w)"
  shows "(\<exists>c pre post.
           map_of (trace_colors (assign_trace_color fromHsvF_name index w)) index = Some c \<and>
           color_palette w = pre @ c # post \<and>
           set pre \<subseteq> snd ` set (trace_colors w) \<and>
           c \<notin> snd ` set (trace_colors w) \<and>
           (\<forall>(j, c') \<in> set (trace_colors (assign_trace_color fromHsvF_name index w)).
              j \<noteq> index \<longrightarrow> c' \<noteq> c)) \<and>
         map_of (trace_colors (populate_item (index, node_name) w)) index =
           Some (case map_of (config_trace_colours w) node_name of
                   Some sc \<Rightarrow> sc
                 | None \<Rightarrow> if index < length (color w) then color w ! index
                           else color_palette w ! (index mod length (color_palette w)))"
proof
  let ?U = "set (map snd (trace_colors w))"
  have U: "snd ` set (trace_colors w) = ?U" by simp
  from assms have "filter (\<lambda>c. c \<notin> ?U) (color_palette w) \<noteq> []"
    unfolding U filter_empty_conv by blast
  then obtain c rest where f: "filter (\<lambda>c. c \<notin> ?U) (color_palette w) = c # rest"
    using list.exhaust by blast
  obtain pre post where pp: "color_palette w = pre @ c # post" "set pre \<subseteq> ?U" "c \<notin> ?U"
    using first_unused [OF f] by blast
  note tc = assign_trace_color_available [OF f, of fromHsvF_name index]
  have m: "map_of (AList.update index c (trace_colors w)) index = Some c"
    by (simp add: update_conv')
  have o: "\<forall>(j, c') \<in> set (AList.update index c (trace_colors w)). j \<noteq> index \<longrightarrow> c' \<noteq> c"
  proof (clarify)
    fix j c' assume "(j, c) \<in> set (AList.update index c (trace_colors w))" "j \<noteq> index"
    then have "(j, c) \<in> set (trace_colors w)" by (rule update_other_entries)
    then have "snd (j, c) \<in> snd ` set (trace_colors w)" by (rule imageI)
    then have "c \<in> ?U" by simp
    with pp(3) show False by blast
  qed
  have "map_of (trace_colors (assign_trace_color fromHsvF_name index w)) index = Some c \<and>
           color_palette w = pre @ c # post \<and>
           set pre \<subseteq> snd ` set (trace_colors w) \<and>
           c \<notin> snd ` set (trace_colors w) \<and>
           (\<forall>(j, c') \<in> set (trace_colors (assign_trace_color fromHsvF_name index w)).
              j \<noteq> index \<longrightarrow> c' \<noteq> c)"
    unfolding tc U using m o pp by blast
  then show "\<exists>c pre post.
           map_of (trace_colors (assign_trace_color fromHsvF_name index w)) index = Some c \<and>
           color_palette w = pre @ c # post \<and>
           set pre \<subseteq> snd ` set (trace_colors w) \<and>
           c \<notin> snd ` set (trace_colors w) \<and>
           (\<forall>(j, c') \<in> set (trace_colors (assign_trace_color fromHsvF_name index w)).
              j \<noteq> index \<longrightarrow> c' \<noteq> c)"
    by blast
next
  show "map_of (trace_colors (populate_item (index, node_name) w)) index =
           Some (case map_of (config_trace_colours w) node_name of
                   Some sc \<Rightarrow> sc
                 | None \<Rightarrow> if index < length (color w) then color w ! index
                           else color_palette w ! (index mod length (color_palette w)))"
    by (simp add: populate_item_trace_colors)
qed

text \<open>With red and green in use, the allocator gives trace 2 the second palette colour,
  blue; the assignment at load gives it the third, green, which trace 1 holds.\<close>

theorem assign_trace_color_unused_witness:
  "(\<exists>c \<in> set (color_palette
       ((initial_window [] [] [])\<lparr> trace_colors := [(0, ''#E53935''), (1, ''#43A047'')] \<rparr>)).
       c \<notin> snd ` set (trace_colors
       ((initial_window [] [] [])\<lparr> trace_colors := [(0, ''#E53935''), (1, ''#43A047'')] \<rparr>))) \<and>
   map_of (trace_colors (assign_trace_color (\<lambda>h s v. ''#000000'') 2
       ((initial_window [] [] [])\<lparr> trace_colors := [(0, ''#E53935''), (1, ''#43A047'')] \<rparr>))) 2
     = Some ''#1E88E5'' \<and>
   map_of (trace_colors (populate_item (2, ''c'')
       ((initial_window [] [] [])\<lparr> trace_colors := [(0, ''#E53935''), (1, ''#43A047'')] \<rparr>))) 2
     = Some ''#43A047''"
proof -
  let ?w = "(initial_window [] [] [])\<lparr> trace_colors := [(0, ''#E53935''), (1, ''#43A047'')] \<rparr>"
  have h: "\<exists>c \<in> set (color_palette ?w). c \<notin> snd ` set (trace_colors ?w)"
    by code_simp
  have first: "filter (\<lambda>c. c \<notin> snd ` set (trace_colors ?w)) (color_palette ?w) ! 0 = ''#1E88E5''"
    by code_simp
  note t = assign_trace_color_unused [OF h, of "\<lambda>h s v. ''#000000''" 2 "''c''"]
  from t obtain c pre post
    where a: "map_of (trace_colors (assign_trace_color (\<lambda>h s v. ''#000000'') 2 ?w)) 2 = Some c"
      and p: "color_palette ?w = pre @ c # post"
      and u: "set pre \<subseteq> snd ` set (trace_colors ?w)" "c \<notin> snd ` set (trace_colors ?w)"
    by blast
  have "filter (\<lambda>c. c \<notin> snd ` set (trace_colors ?w)) (color_palette ?w)
          = c # filter (\<lambda>c. c \<notin> snd ` set (trace_colors ?w)) post"
    unfolding p using u by (auto simp: filter_empty_conv)
  with first have "c = ''#1E88E5''" by simp
  with a have v: "map_of (trace_colors (assign_trace_color (\<lambda>h s v. ''#000000'') 2 ?w)) 2
             = Some ''#1E88E5''" by simp
  have d: "(case map_of (config_trace_colours ?w) ''c'' of
                   Some sc \<Rightarrow> sc
                 | None \<Rightarrow> if 2 < length (color ?w) then color ?w ! 2
                           else color_palette ?w ! (2 mod length (color_palette ?w))) = ''#43A047''"
    by code_simp
  from t have "map_of (trace_colors (populate_item (2, ''c'') ?w)) 2 =
           Some (case map_of (config_trace_colours ?w) ''c'' of
                   Some sc \<Rightarrow> sc
                 | None \<Rightarrow> if 2 < length (color ?w) then color ?w ! 2
                           else color_palette ?w ! (2 mod length (color_palette ?w)))"
    by (rule conjunct2)
  then have l: "map_of (trace_colors (populate_item (2, ''c'') ?w)) 2 = Some ''#43A047''"
    unfolding d .
  show ?thesis by (intro conjI) (rule h, rule v, rule l)
qed

text \<open>
  Claim C8 as stated, for every assignment of a colour to a trace, fails for the
  assignment made at load: \<^verbatim>\<open>populate_waveform_list\<close> does not look at the colours in
  use. With the traces \<open>a\<close> and \<open>b\<close> and the saved colour \<^verbatim>\<open>#1E88E5\<close> for \<open>a\<close>, trace
  \<open>b\<close> receives the palette colour at its index 1, which is \<^verbatim>\<open>#1E88E5\<close> too, while
  the first palette colour is held by no trace.
\<close>

theorem load_repeats_colour_counterexample:
  "trace_colors (load_simulation_data two_traces (initial_window [(''a'', ''#1E88E5'')] [] []))
     = [(0, ''#1E88E5''), (1, ''#1E88E5'')] \<and>
   ''#E53935'' \<in> set (color_palette
      (load_simulation_data two_traces (initial_window [(''a'', ''#1E88E5'')] [] []))) \<and>
   ''#E53935'' \<notin> snd ` set (trace_colors
      (load_simulation_data two_traces (initial_window [(''a'', ''#1E88E5'')] [] [])))"
  by code_simp

lemma assign_trace_color_depends:
  assumes "trace_colors w2 = trace_colors w" and "color_palette w2 = color_palette w"
  shows "trace_colors (assign_trace_color fromHsvF_name index w2)
           = trace_colors (assign_trace_color fromHsvF_name index w)"
  unfolding assign_trace_color_def Let_def assms
  by (simp split: list.splits)

text \<open>
  Claim C9. When every palette colour is in use, the trace receives the colour that the
  Qt conversion gives for hue \<open>(0.618033988749895 * n) mod 1\<close>, saturation 0.7 and value
  0.8, where \<open>n\<close> is the number of entries of \<^verbatim>\<open>trace_colors\<close>. The assignment depends
  only on the prior assignments and the palette: any window that agrees on them gets the
  same result.
\<close>

theorem assign_trace_color_fallback:
  assumes "set (color_palette w) \<subseteq> snd ` set (trace_colors w)"
  shows "map_of (trace_colors (assign_trace_color fromHsvF_name index w)) index
           = Some (fromHsvF_name
                     (frac (0.618033988749895 * real (length (trace_colors w)))) 0.7 0.8) \<and>
         (\<forall>w2. trace_colors w2 = trace_colors w \<and> color_palette w2 = color_palette w \<longrightarrow>
            trace_colors (assign_trace_color fromHsvF_name index w2)
              = trace_colors (assign_trace_color fromHsvF_name index w))"
proof (intro conjI allI impI)
  have "filter (\<lambda>c. c \<notin> set (map snd (trace_colors w))) (color_palette w) = []"
    unfolding filter_empty_conv using assms by auto
  note tc = assign_trace_color_exhausted [OF this, of fromHsvF_name index]
  show "map_of (trace_colors (assign_trace_color fromHsvF_name index w)) index
           = Some (fromHsvF_name
                     (frac (0.618033988749895 * real (length (trace_colors w)))) 0.7 0.8)"
    unfolding tc by (rule update_Some_unfold [THEN iffD2]) simp
next
  fix w2 :: plot_window assume "trace_colors w2 = trace_colors w \<and> color_palette w2 = color_palette w"
  then show "trace_colors (assign_trace_color fromHsvF_name index w2)
              = trace_colors (assign_trace_color fromHsvF_name index w)"
    using assign_trace_color_depends by blast
qed

text \<open>With the twelve palette colours assigned to twelve traces the hue is
  \<open>0.41640786499874\<close>.\<close>

theorem assign_trace_color_fallback_witness:
  "set (color_palette ((initial_window [] [] [])\<lparr> trace_colors := enumerate 0 VIBRANT_COLOR_PALETTE \<rparr>))
     \<subseteq> snd ` set (trace_colors
          ((initial_window [] [] [])\<lparr> trace_colors := enumerate 0 VIBRANT_COLOR_PALETTE \<rparr>)) \<and>
   frac (0.618033988749895 * real (length (trace_colors
          ((initial_window [] [] [])\<lparr> trace_colors := enumerate 0 VIBRANT_COLOR_PALETTE \<rparr>))))
     = 0.41640786499874 \<and>
   map_of (trace_colors (assign_trace_color (\<lambda>h s v. if h < 0.5 then ''low'' else ''high'') 12
          ((initial_window [] [] [])\<lparr> trace_colors := enumerate 0 VIBRANT_COLOR_PALETTE \<rparr>))) 12
     = Some ''low''"
proof -
  let ?w = "(initial_window [] [] [])\<lparr> trace_colors := enumerate 0 VIBRANT_COLOR_PALETTE \<rparr>"
  let ?f = "\<lambda>h s v::real. if h < 0.5 then ''low'' else ''high''"
  have h: "set (color_palette ?w) \<subseteq> snd ` set (trace_colors ?w)"
    by code_simp
  have hue: "frac (0.618033988749895 * real (length (trace_colors ?w))) = 0.41640786499874"
    by code_simp
  have lt: "(0.41640786499874 :: real) < 0.5" by simp
  have "map_of (trace_colors (assign_trace_color ?f 12 ?w)) 12
          = Some (?f (frac (0.618033988749895 * real (length (trace_colors ?w)))) 0.7 0.8)"
    using assign_trace_color_fallback [OF h, of ?f 12] by (rule conjunct1)
  then have "map_of (trace_colors (assign_trace_color ?f 12 ?w)) 12 = Some ''low''"
    unfolding hue if_P [OF lt] .
  then show ?thesis by (intro conjI) (rule h, rule hue)
qed

subsection \<open>Colours at load\<close>

lemma populate_item_fields [simp]:
  "config_trace_colours (populate_item p w) = config_trace_colours w"
  "color (populate_item p w) = color w"
  "color_palette (populate_item p w) = color_palette w"
  by (cases p; simp add: populate_item_def Let_def)+

lemma populate_item_trace_visibility:
  "map_of (trace_visibility (populate_item (k, n) w)) i =
     (if i = k then Some False else map_of (trace_visibility w) i)"
  by (simp add: populate_item_def Let_def update_conv')

lemma fold_populate_trace_colors:
  "map_of (trace_colors (fold populate_item (enumerate k names) w)) i =
     (if k \<le> i \<and> i < k + length names
      then Some (case map_of (config_trace_colours w) (names ! (i - k)) of
                   Some sc \<Rightarrow> sc
                 | None \<Rightarrow> if i < length (color w) then color w ! i
                           else color_palette w ! (i mod length (color_palette w)))
      else map_of (trace_colors w) i)"
proof (induction names arbitrary: k w)
  case Nil
  have "\<not> (k \<le> i \<and> i < k)" by arith
  then show ?case by auto
next
  case (Cons n names)
  have nth: "k < i \<Longrightarrow> (n # names) ! (i - k) = names ! (i - Suc k)"
    by (simp add: nth_Cons')
  show ?case
  proof (cases "i = k")
    case True
    show ?thesis
      unfolding True
      using Cons.IH [of "Suc k" "populate_item (k, n) w", unfolded True]
      by (simp add: populate_item_trace_colors)
  next
    case False
    show ?thesis
    proof (cases "k < i")
      case True
      then show ?thesis
        using nth by (simp add: Cons.IH populate_item_trace_colors Suc_le_eq cong: option.case_cong)
    next
      case False
      with \<open>i \<noteq> k\<close> have "i < k" by simp
      then show ?thesis
        by (simp add: Cons.IH populate_item_trace_colors cong: option.case_cong)
    qed
  qed
qed

lemma fold_populate_trace_visibility:
  "map_of (trace_visibility (fold populate_item (enumerate k names) w)) i =
     (if k \<le> i \<and> i < k + length names then Some False else map_of (trace_visibility w) i)"
proof (induction names arbitrary: k w)
  case Nil
  have "\<not> (k \<le> i \<and> i < k)" by arith
  then show ?case by auto
next
  case (Cons n names)
  show ?case
    using Cons.IH [of "Suc k" "populate_item (k, n) w"]
    by (cases "i = k") (auto simp: populate_item_trace_visibility)
qed

lemma palette_cycle_nth:
  "i < n \<Longrightarrow> map (\<lambda>i. pal ! (i mod length pal)) [0 ..< n] ! i = pal ! (i mod length pal)"
  by simp

lemma load_trace_colors:
  assumes "i < length (de_NBList de)"
  shows "map_of (trace_colors (load_simulation_data de (initial_window sc st ss))) i =
           Some (case map_of sc (de_NBList de ! i) of
                   Some c \<Rightarrow> c
                 | None \<Rightarrow> VIBRANT_COLOR_PALETTE ! (i mod length VIBRANT_COLOR_PALETTE))"
  using assms
  unfolding load_simulation_data_def populate_waveform_list_def Let_def
  by (simp add: fold_populate_trace_colors initial_window_def split: option.splits)

lemma load_trace_visibility:
  assumes "i < length (de_NBList de)"
  shows "map_of (trace_visibility (load_simulation_data de (initial_window sc st ss))) i = Some False"
  using assms
  unfolding load_simulation_data_def populate_waveform_list_def Let_def
  by (simp add: fold_populate_trace_visibility initial_window_def)

text \<open>
  Claim C10, as the code has it. After a dataset is loaded into a fresh window, every
  trace index holds a colour, the saved colour when the trace's name is a key of the
  loaded configuration and the palette colour at \<open>index mod 12\<close> otherwise, and every
  trace is invisible (so a visible trace always has a colour). Two traces whose indices
  agree modulo the palette size and whose names are both absent from the saved colours
  hold the same colour.
\<close>

theorem load_assigns_colors:
  assumes "i < length (de_NBList de)"
  shows "map_of (trace_colors (load_simulation_data de (initial_window sc st ss))) i =
           Some (case map_of sc (de_NBList de ! i) of
                   Some c \<Rightarrow> c
                 | None \<Rightarrow> VIBRANT_COLOR_PALETTE ! (i mod length VIBRANT_COLOR_PALETTE)) \<and>
         map_of (trace_visibility (load_simulation_data de (initial_window sc st ss))) i
           = Some False \<and>
         (\<forall>j. j < length (de_NBList de) \<and>
              j mod length VIBRANT_COLOR_PALETTE = i mod length VIBRANT_COLOR_PALETTE \<and>
              map_of sc (de_NBList de ! i) = None \<and> map_of sc (de_NBList de ! j) = None \<longrightarrow>
              map_of (trace_colors (load_simulation_data de (initial_window sc st ss))) j
                = map_of (trace_colors (load_simulation_data de (initial_window sc st ss))) i)"
proof (intro conjI allI impI)
  show "map_of (trace_colors (load_simulation_data de (initial_window sc st ss))) i =
           Some (case map_of sc (de_NBList de ! i) of
                   Some c \<Rightarrow> c
                 | None \<Rightarrow> VIBRANT_COLOR_PALETTE ! (i mod length VIBRANT_COLOR_PALETTE))"
    by (rule load_trace_colors [OF assms])
  show "map_of (trace_visibility (load_simulation_data de (initial_window sc st ss))) i = Some False"
    by (rule load_trace_visibility [OF assms])
next
  fix j
  assume j: "j < length (de_NBList de) \<and>
              j mod length VIBRANT_COLOR_PALETTE = i mod length VIBRANT_COLOR_PALETTE \<and>
              map_of sc (de_NBList de ! i) = None \<and> map_of sc (de_NBList de ! j) = None"
  then have "j < length (de_NBList de)" by simp
  from load_trace_colors [OF this, of sc st ss] load_trace_colors [OF assms, of sc st ss] j
  show "map_of (trace_colors (load_simulation_data de (initial_window sc st ss))) j
                = map_of (trace_colors (load_simulation_data de (initial_window sc st ss))) i"
    by simp
qed

text \<open>With thirteen traces and no saved colours, traces 0 and 12 both hold the first
  palette colour before any user action.\<close>

theorem load_assigns_colors_witness:
  "0 < length (de_NBList thirteen_traces) \<and>
   map_of (trace_colors (load_simulation_data thirteen_traces (initial_window [] [] []))) 0
     = Some ''#E53935'' \<and>
   map_of (trace_colors (load_simulation_data thirteen_traces (initial_window [] [] []))) 12
     = Some ''#E53935'' \<and>
   map_of (trace_visibility (load_simulation_data thirteen_traces (initial_window [] [] []))) 0
     = Some False"
proof -
  have h: "0 < length (de_NBList thirteen_traces)" by code_simp
  have v0: "map_of (trace_colors (load_simulation_data thirteen_traces (initial_window [] [] []))) 0
     = Some ''#E53935''" by code_simp
  have v12: "map_of (trace_colors (load_simulation_data thirteen_traces (initial_window [] [] []))) 12
     = Some ''#E53935''" by code_simp
  have vis: "map_of (trace_visibility (load_simulation_data thirteen_traces (initial_window [] [] []))) 0
     = Some False"
    using load_assigns_colors [OF h, of "[]" "[]" "[]"] by blast
  show ?thesis by (intro conjI) (rule h, rule v0, rule v12, rule vis)
qed

text \<open>
  The last clause of claim C10 as stated, that a dataset with more traces than the palette
  always has two traces of one colour, fails when a saved colour stands in: with thirteen traces
  and a saved colour for the thirteenth, the thirteen colours held are pairwise different.
\<close>

theorem load_saved_colour_counterexample:
  "12 < length (de_NBList thirteen_traces) \<and>
   map fst (trace_colors (load_simulation_data thirteen_traces
                            (initial_window [(''m'', ''#000000'')] [] []))) = [0 ..< 13] \<and>
   distinct (map snd (trace_colors (load_simulation_data thirteen_traces
                                      (initial_window [(''m'', ''#000000'')] [] []))))"
  by code_simp

subsection \<open>Time axis rescaling\<close>

lemma rescale_twice:
  "(\<lambda>(idx, line). (idx, line\<lparr> xdata := sx \<rparr>)) \<circ> (\<lambda>(idx, line). (idx, line\<lparr> xdata := sx \<rparr>))
   = (\<lambda>(idx :: nat, line :: line2d). (idx, line\<lparr> xdata := sx \<rparr>))"
  by (auto simp: fun_eq_iff)

lemma set_time_axis_label_keeps [simp]:
  "obj_dataext_x (set_time_axis_label w) = obj_dataext_x w"
  "has_axes (set_time_axis_label w) = has_axes w"
  by (simp_all add: set_time_axis_label_def Let_def split_def)

lemma set_time_axis_label_twice:
  "set_time_axis_label (set_time_axis_label w) = set_time_axis_label w"
proof (cases "has_axes w \<and> \<not> length (obj_dataext_x w) < 2")
  case False
  then show ?thesis
    by (auto simp add: set_time_axis_label_def)
next
  case True
  obtain unit scale
    where us: "time_unit_scale (last (obj_dataext_x w) - hd (obj_dataext_x w)) = (unit, scale)"
    by (cases "time_unit_scale (last (obj_dataext_x w) - hd (obj_dataext_x w))")
  show ?thesis
  proof (cases "scale = 1")
    case one: True
    with True us show ?thesis
      by (simp add: set_time_axis_label_def Let_def)
  next
    case False
    with True us show ?thesis
      by (simp add: set_time_axis_label_def Let_def rescale_twice)
  qed
qed

lemma set_time_axis_label_xdata:
  assumes "has_axes w" and "\<not> length (obj_dataext_x w) < 2"
    and "snd (time_unit_scale (last (obj_dataext_x w) - hd (obj_dataext_x w))) \<noteq> 1"
  shows "active_traces (set_time_axis_label w) =
           map (\<lambda>(idx, line). (idx, line\<lparr> xdata :=
                  map (\<lambda>t. t * snd (time_unit_scale
                                      (last (obj_dataext_x w) - hd (obj_dataext_x w))))
                      (obj_dataext_x w) \<rparr>))
               (active_traces w)"
  using assms by (simp add: set_time_axis_label_def Let_def split_def)

text \<open>
  Claim C7. For a time axis of at least two points, rescaling twice gives the same
  window as rescaling once: the provider's axis is never written, and whenever a scale
  other than 1 applies, the x-data of every active line is the provider's axis times
  that scale, however often the step has run.
\<close>

theorem set_time_axis_label_idempotent:
  assumes "2 \<le> length (obj_dataext_x w)"
  shows "set_time_axis_label (set_time_axis_label w) = set_time_axis_label w \<and>
         obj_dataext_x (set_time_axis_label w) = obj_dataext_x w \<and>
         (has_axes w \<and>
          snd (time_unit_scale (last (obj_dataext_x w) - hd (obj_dataext_x w))) \<noteq> 1 \<longrightarrow>
          (\<forall>(idx, line) \<in> set (active_traces (set_time_axis_label (set_time_axis_label w))).
             xdata line =
               map (\<lambda>t. t * snd (time_unit_scale
                                   (last (obj_dataext_x w) - hd (obj_dataext_x w))))
                   (obj_dataext_x w)))"
proof (intro conjI impI)
  show "set_time_axis_label (set_time_axis_label w) = set_time_axis_label w"
    by (rule set_time_axis_label_twice)
  show "obj_dataext_x (set_time_axis_label w) = obj_dataext_x w"
    by simp
next
  assume a: "has_axes w \<and>
          snd (time_unit_scale (last (obj_dataext_x w) - hd (obj_dataext_x w))) \<noteq> 1"
  from assms have l: "\<not> length (obj_dataext_x w) < 2" by simp
  from a have h: "has_axes w"
    and s: "snd (time_unit_scale (last (obj_dataext_x w) - hd (obj_dataext_x w))) \<noteq> 1"
    by simp_all
  show "\<forall>(idx, line) \<in> set (active_traces (set_time_axis_label (set_time_axis_label w))).
             xdata line =
               map (\<lambda>t. t * snd (time_unit_scale
                                   (last (obj_dataext_x w) - hd (obj_dataext_x w))))
                   (obj_dataext_x w)"
    unfolding set_time_axis_label_twice set_time_axis_label_xdata [OF h l s]
    by auto
qed

text \<open>An axis from 0 to 0.5 ms is shown in microseconds: 0 and 500, after one rescale
  and after two.\<close>

theorem set_time_axis_label_idempotent_witness:
  "2 \<le> length (obj_dataext_x
      ((initial_window [] [] [])
         \<lparr> obj_dataext_x := [0, 5 / 10000], has_axes := True,
           active_traces := [(0, \<lparr> xdata = [0, 5 / 10000], ydata = [0, 5], steps_post = True,
                                   linewidth = 1, line_color = ''blue'', line_label = ''a'' \<rparr>)] \<rparr>)) \<and>
   map (xdata \<circ> snd) (active_traces (set_time_axis_label
      ((initial_window [] [] [])
         \<lparr> obj_dataext_x := [0, 5 / 10000], has_axes := True,
           active_traces := [(0, \<lparr> xdata = [0, 5 / 10000], ydata = [0, 5], steps_post = True,
                                   linewidth = 1, line_color = ''blue'', line_label = ''a'' \<rparr>)] \<rparr>)))
     = [[0, 500]] \<and>
   map (xdata \<circ> snd) (active_traces (set_time_axis_label (set_time_axis_label
      ((initial_window [] [] [])
         \<lparr> obj_dataext_x := [0, 5 / 10000], has_axes := True,
           active_traces := [(0, \<lparr> xdata = [0, 5 / 10000], ydata = [0, 5], steps_post = True,
                                   linewidth = 1, line_color = ''blue'', line_label = ''a'' \<rparr>)] \<rparr>))))
     = [[0, 500]]"
proof -
  let ?w = "(initial_window [] [] [])
         \<lparr> obj_dataext_x := [0, 5 / 10000], has_axes := True,
           active_traces := [(0, \<lparr> xdata = [0, 5 / 10000], ydata = [0, 5], steps_post = True,
                                   linewidth = 1, line_color = ''blue'', line_label = ''a'' \<rparr>)] \<rparr>"
  have h: "2 \<le> length (obj_dataext_x ?w)" by code_simp
  have once: "map (xdata \<circ> snd) (active_traces (set_time_axis_label ?w)) = [[0, 500]]"
    by code_simp
  have "set_time_axis_label (set_time_axis_label ?w) = set_time_axis_label ?w"
    using set_time_axis_label_idempotent [OF h] by (rule conjunct1)
  then have twice:
    "map (xdata \<circ> snd) (active_traces (set_time_axis_label (set_time_axis_label ?w))) = [[0, 500]]"
    using once by simp
  show ?thesis by (intro conjI) (rule h, rule once, rule twice)
qed

subsection \<open>Digital timing diagram\<close>

lemma plot_timing_trace_step:
  assumes "plot_timing_trace vmax sp thr td base (rank, idx) (yt, yl, w) = Inr (yt', yl', w')"
  shows "obj_dataext_y w' = obj_dataext_y w \<and>
         logic_threshold w' = logic_threshold w \<and>
         (\<exists>line. active_traces w' = AList.update idx line (active_traces w) \<and>
                 steps_post line \<and>
                 ydata line = map (\<lambda>raw. (if raw > thr then vmax else 0) + real rank * sp)
                                  (obj_dataext_y w ! idx))"
proof -
  from assms obtain label where "display_name w idx = Inr label"
    unfolding plot_timing_trace_def
    by (cases "display_name w idx") (simp_all add: Let_def split: if_splits)
  with assms show ?thesis
    unfolding plot_timing_trace_def
    by (simp add: Let_def comp_def split: if_splits) fastforce
qed

lemma plot_timing_traces_loop:
  assumes "plot_timing_traces vmax sp thr td base (enumerate k idxs) (yt, yl, w) = Inr (yt', yl', w')"
    and "distinct idxs"
  shows "obj_dataext_y w' = obj_dataext_y w \<and>
         logic_threshold w' = logic_threshold w \<and>
         (\<forall>r < length idxs.
            \<exists>line. map_of (active_traces w') (idxs ! r) = Some line \<and>
                   steps_post line \<and>
                   ydata line = map (\<lambda>raw. (if raw > thr then vmax else 0) + real (k + r) * sp)
                                    (obj_dataext_y w ! (idxs ! r))) \<and>
         (\<forall>i. i \<notin> set idxs \<longrightarrow> map_of (active_traces w') i = map_of (active_traces w) i)"
  using assms
proof (induction idxs arbitrary: k yt yl w)
  case Nil
  then show ?case by simp
next
  case (Cons a idxs)
  from Cons.prems(1) obtain acc1
    where s1: "plot_timing_trace vmax sp thr td base (k, a) (yt, yl, w) = Inr acc1"
      and r1: "plot_timing_traces vmax sp thr td base (enumerate (Suc k) idxs) acc1 = Inr (yt', yl', w')"
    by (auto split: sum.splits)
  obtain yt1 yl1 w1 where acc1: "acc1 = (yt1, yl1, w1)" by (cases acc1) auto
  from plot_timing_trace_step [OF s1 [unfolded acc1]]
  obtain line where y1: "obj_dataext_y w1 = obj_dataext_y w"
    and t1: "logic_threshold w1 = logic_threshold w"
    and a1: "active_traces w1 = AList.update a line (active_traces w)"
    and sp1: "steps_post line"
    and yd1: "ydata line = map (\<lambda>raw. (if raw > thr then vmax else 0) + real k * sp)
                              (obj_dataext_y w ! a)"
    by blast
  from Cons.prems(2) have d: "distinct idxs" and na: "a \<notin> set idxs" by simp_all
  note ih = Cons.IH [OF r1 [unfolded acc1] d]
  from ih have y: "obj_dataext_y w' = obj_dataext_y w" and t: "logic_threshold w' = logic_threshold w"
    using y1 t1 by simp_all
  from ih have other: "\<And>i. i \<notin> set idxs \<Longrightarrow> map_of (active_traces w') i = map_of (active_traces w1) i"
    by blast
  from ih have rest: "\<And>r. r < length idxs \<Longrightarrow>
       \<exists>line. map_of (active_traces w') (idxs ! r) = Some line \<and> steps_post line \<and>
              ydata line = map (\<lambda>raw. (if raw > thr then vmax else 0) + real (Suc k + r) * sp)
                               (obj_dataext_y w ! (idxs ! r))"
    unfolding y1 by blast
  have m1: "\<And>i. map_of (active_traces w1) i = (if i = a then Some line else map_of (active_traces w) i)"
    unfolding a1 by (simp add: update_conv')
  have lines: "\<exists>line. map_of (active_traces w') ((a # idxs) ! r) = Some line \<and> steps_post line \<and>
                 ydata line = map (\<lambda>raw. (if raw > thr then vmax else 0) + real (k + r) * sp)
                                  (obj_dataext_y w ! ((a # idxs) ! r))"
    if "r < length (a # idxs)" for r
  proof (cases r)
    case 0
    have "map_of (active_traces w') a = Some line"
      using other [OF na] m1 by simp
    with sp1 yd1 0 show ?thesis by simp
  next
    case (Suc r')
    with that have "r' < length idxs" by simp
    from rest [OF this] Suc show ?thesis by simp
  qed
  have others: "map_of (active_traces w') i = map_of (active_traces w) i" if "i \<notin> set (a # idxs)" for i
  proof -
    from that have "i \<notin> set idxs" "i \<noteq> a" by simp_all
    then show ?thesis using other m1 by simp
  qed
  show ?case using y t lines others by blast
qed

lemma map_of_rescaled:
  "map_of (map (\<lambda>(idx, l). (idx, l\<lparr> xdata := sx \<rparr>)) al) i
     = map_option (\<lambda>l. l\<lparr> xdata := sx \<rparr>) (map_of al i)"
  by (simp add: map_of_map)

lemma set_time_axis_label_rescaled:
  "active_traces (set_time_axis_label w) = active_traces w \<or>
   (\<exists>sx. active_traces (set_time_axis_label w)
            = map (\<lambda>(idx, l). (idx, l\<lparr> xdata := sx \<rparr>)) (active_traces w))"
proof (cases "has_axes w \<and> \<not> length (obj_dataext_x w) < 2")
  case False
  then have "active_traces (set_time_axis_label w) = active_traces w"
    by (auto simp add: set_time_axis_label_def)
  then show ?thesis by (rule disjI1)
next
  case True
  obtain unit scale
    where us: "time_unit_scale (last (obj_dataext_x w) - hd (obj_dataext_x w)) = (unit, scale)"
    by (cases "time_unit_scale (last (obj_dataext_x w) - hd (obj_dataext_x w))")
  show ?thesis
  proof (cases "scale = 1")
    case one: True
    with True us have "active_traces (set_time_axis_label w) = active_traces w"
      by (simp add: set_time_axis_label_def Let_def)
    then show ?thesis by (rule disjI1)
  next
    case False
    with True us have "active_traces (set_time_axis_label w)
        = map (\<lambda>(idx, l). (idx, l\<lparr> xdata := map (\<lambda>t. t * scale) (obj_dataext_x w) \<rparr>))
              (active_traces w)"
      by (simp add: set_time_axis_label_def Let_def)
    then show ?thesis by blast
  qed
qed

lemma set_time_axis_label_traces:
  "map_option ydata (map_of (active_traces (set_time_axis_label w)) i)
     = map_option ydata (map_of (active_traces w) i)"
  "map_option steps_post (map_of (active_traces (set_time_axis_label w)) i)
     = map_option steps_post (map_of (active_traces w) i)"
  using set_time_axis_label_rescaled [of w]
  by (auto simp add: map_of_rescaled option.map_comp comp_def)

lemma set_time_axis_label_threshold [simp]:
  "logic_threshold (set_time_axis_label w) = logic_threshold w"
  by (simp add: set_time_axis_label_def Let_def split_def)

lemma plot_timing_traces_loop_threshold:
  assumes "plot_timing_traces vmax sp thr td base ris (yt, yl, w) = Inr (yt', yl', w')"
  shows "logic_threshold w' = logic_threshold w"
  using assms
proof (induction ris arbitrary: yt yl w)
  case Nil
  then show ?case by simp
next
  case (Cons ri ris)
  obtain rank idx where ri: "ri = (rank, idx)" by (cases ri) auto
  from Cons.prems obtain acc1
    where s1: "plot_timing_trace vmax sp thr td base (rank, idx) (yt, yl, w) = Inr acc1"
      and r1: "plot_timing_traces vmax sp thr td base ris acc1 = Inr (yt', yl', w')"
    unfolding ri by (auto split: sum.splits)
  obtain yt1 yl1 w1 where acc1: "acc1 = (yt1, yl1, w1)" by (cases acc1) auto
  from plot_timing_trace_step [OF s1 [unfolded acc1]] Cons.IH [OF r1 [unfolded acc1]]
  show ?case by simp
qed

lemma plot_timing_levels_result:
  assumes "plot_timing_levels vmax w = Inr w'"
  shows "\<exists>yt yl w3 ylim.
           plot_timing_traces vmax (vertical_spacing w * vmax)
             (if threshold_spinbox_value w = threshold_spinbox_minimum
              then 0.7 * vmax else threshold_spinbox_value w)
             (obj_dataext_x w)
             (0.01 * (last (obj_dataext_x w) - hd (obj_dataext_x w)))
             (enumerate 0 (rev (visible_indices w)))
             ([], [], w\<lparr> logic_threshold :=
                          Some (if threshold_spinbox_value w = threshold_spinbox_minimum
                                then 0.7 * vmax else threshold_spinbox_value w),
                        axes_xlim := Some (hd (obj_dataext_x w), last (obj_dataext_x w)) \<rparr>)
             = Inr (yt, yl, w3) \<and>
           logic_threshold w' = logic_threshold w3 \<and>
           active_traces w' =
             active_traces (set_time_axis_label
               (w3\<lparr> axes_ylim := ylim, axes_yticks := yt, axes_yticklabels := yl \<rparr>))"
  using assms
  unfolding plot_timing_levels_def Let_def
  by (simp split: if_splits sum.splits prod.splits) fastforce+

lemma collect_samples_set:
  "collect_samples ys idxs = Inr all \<Longrightarrow> set all = (\<Union>i \<in> set idxs. set (ys ! i))"
  by (induction idxs arbitrary: all) (auto split: if_splits sum.splits)

lemma np_max_Max: "np_max all = Inr v \<Longrightarrow> v = Max (set all)"
proof (cases all)
  case Nil
  then show "np_max all = Inr v \<Longrightarrow> v = Max (set all)" by simp
next
  case (Cons a list)
  have "Max (set (a # list)) = fold max list a" by (rule Max.set_eq_fold)
  then show "np_max all = Inr v \<Longrightarrow> v = Max (set all)" unfolding Cons by simp
qed

lemma visible_indices_registry:
  assumes "distinct (map fst (trace_visibility w))"
  shows "set (visible_indices w)
           = Set.filter (\<lambda>i. map_of (trace_visibility w) i = Some True)
               (fst ` set (trace_visibility w))"
proof (intro set_eqI iffI)
  fix i assume "i \<in> set (visible_indices w)"
  then have "(i, True) \<in> set (trace_visibility w)"
    by (auto simp: visible_indices_def)
  then show "i \<in> Set.filter (\<lambda>i. map_of (trace_visibility w) i = Some True)
               (fst ` set (trace_visibility w))"
    using assms by force
next
  fix i assume "i \<in> Set.filter (\<lambda>i. map_of (trace_visibility w) i = Some True)
               (fst ` set (trace_visibility w))"
  then have "map_of (trace_visibility w) i = Some True" by simp
  then have "(i, True) \<in> set (trace_visibility w)" by (rule map_of_SomeD)
  then show "i \<in> set (visible_indices w)"
    by (force simp: visible_indices_def)
qed

lemma global_max_voltage_indices:
  assumes "distinct (map fst (trace_visibility w))"
  shows "global_max w = Max (\<Union>i \<in> set (voltage_indices w). set (obj_dataext_y w ! i))"
proof -
  let ?V = "Set.filter (\<lambda>i. map_of (trace_visibility w) i = Some True)
              (fst ` set (trace_visibility w))"
  have v: "set (visible_indices w) = ?V" by (rule visible_indices_registry [OF assms])
  have f: "set (filter (\<lambda>i. i < obj_dataext_volts_length w) (visible_indices w))
             = Set.filter (\<lambda>i. i < obj_dataext_volts_length w) ?V"
    unfolding v [symmetric] by auto
  have "(filter (\<lambda>i. i < obj_dataext_volts_length w) (visible_indices w) = [])
          = (set (filter (\<lambda>i. i < obj_dataext_volts_length w) (visible_indices w)) = {})"
    by (simp only: set_empty)
  then have e: "(filter (\<lambda>i. i < obj_dataext_volts_length w) (visible_indices w) = [])
             = (Set.filter (\<lambda>i. i < obj_dataext_volts_length w) ?V = {})"
    unfolding f .
  show ?thesis
  proof (cases "filter (\<lambda>i. i < obj_dataext_volts_length w) (visible_indices w) = []")
    case True
    with e have E: "Set.filter (\<lambda>i. i < obj_dataext_volts_length w) ?V = {}" by blast
    have vi: "voltage_indices w = visible_indices w"
      unfolding voltage_indices_def using True by simp
    have "global_max w = Max (\<Union>i \<in> ?V. set (obj_dataext_y w ! i))"
      unfolding global_max_def Let_def if_P [OF E] ..
    then show ?thesis unfolding vi v .
  next
    case False
    with e have E: "Set.filter (\<lambda>i. i < obj_dataext_volts_length w) ?V \<noteq> {}" by blast
    have vi: "voltage_indices w = filter (\<lambda>i. i < obj_dataext_volts_length w) (visible_indices w)"
      unfolding voltage_indices_def using False by simp
    have "global_max w = Max (\<Union>i \<in> Set.filter (\<lambda>i. i < obj_dataext_volts_length w) ?V.
                                 set (obj_dataext_y w ! i))"
      unfolding global_max_def Let_def if_not_P [OF E] ..
    then show ?thesis unfolding vi f .
  qed
qed

lemma plot_timing_diagram_levels:
  assumes "distinct (map fst (trace_visibility w))"
    and "plot_timing_diagram w = Inr w'" and "visible_indices w \<noteq> []"
  shows "plot_timing_levels (global_max w) w = Inr w'"
proof -
  from assms(2,3) obtain all vmax
    where c: "collect_samples (obj_dataext_y w) (voltage_indices w) = Inr all"
      and m: "np_max all = Inr vmax"
      and l: "plot_timing_levels vmax w = Inr w'"
    unfolding plot_timing_diagram_def
    by (auto split: sum.splits)
  have "vmax = global_max w"
    unfolding global_max_voltage_indices [OF assms(1)] collect_samples_set [OF c, symmetric]
    by (rule np_max_Max [OF m])
  with l show ?thesis by simp
qed

lemma distinct_visible_indices:
  "distinct (map fst (trace_visibility w)) \<Longrightarrow> distinct (visible_indices w)"
  unfolding visible_indices_def by (rule distinct_map_filter)

lemma plot_timing_trace_succeeds:
  assumes "idx < length (obj_dataext_y w)" and "idx < length (obj_dataext_NBList w)"
    and "length (obj_dataext_y w ! idx) = length td" and "td \<noteq> []"
  shows "\<exists>yt' yl' w'. plot_timing_trace vmax sp thr td base (rank, idx) (yt, yl, w) = Inr (yt', yl', w') \<and>
                       obj_dataext_NBList w' = obj_dataext_NBList w"
proof -
  from assms(3,4) have "obj_dataext_y w ! idx \<noteq> []" by auto
  with assms show ?thesis
    unfolding plot_timing_trace_def display_name_def
    by (simp add: Let_def)
qed

lemma plot_timing_traces_succeeds:
  assumes "\<forall>(rank, idx) \<in> set ris. idx < length (obj_dataext_y w) \<and>
             idx < length (obj_dataext_NBList w) \<and> length (obj_dataext_y w ! idx) = length td"
    and "td \<noteq> []"
  shows "\<exists>acc'. plot_timing_traces vmax sp thr td base ris (yt, yl, w) = Inr acc'"
  using assms(1)
proof (induction ris arbitrary: yt yl w)
  case Nil
  then show ?case by simp
next
  case (Cons ri ris)
  obtain rank idx where ri: "ri = (rank, idx)" by (cases ri) auto
  from Cons.prems ri have ok: "idx < length (obj_dataext_y w)" "idx < length (obj_dataext_NBList w)"
    "length (obj_dataext_y w ! idx) = length td"
    by simp_all
  from plot_timing_trace_succeeds [OF ok assms(2)]
  obtain yt1 yl1 w1
    where s1: "plot_timing_trace vmax sp thr td base (rank, idx) (yt, yl, w) = Inr (yt1, yl1, w1)"
      and n1: "obj_dataext_NBList w1 = obj_dataext_NBList w"
    by blast
  from plot_timing_trace_step [OF s1] have y1: "obj_dataext_y w1 = obj_dataext_y w" by simp
  have "\<forall>(rank, idx) \<in> set ris. idx < length (obj_dataext_y w1) \<and>
             idx < length (obj_dataext_NBList w1) \<and> length (obj_dataext_y w1 ! idx) = length td"
    unfolding y1 n1 using Cons.prems by simp
  from Cons.IH [OF this] obtain acc'
    where "plot_timing_traces vmax sp thr td base ris (yt1, yl1, w1) = Inr acc'"
    by blast
  then have "plot_timing_traces vmax sp thr td base (ri # ris) (yt, yl, w) = Inr acc'"
    unfolding ri using s1 by simp
  then show ?case by (rule exI)
qed

lemma collect_samples_succeeds:
  assumes "\<forall>i \<in> set idxs. i < length ys"
  shows "\<exists>all. collect_samples ys idxs = Inr all"
  using assms by (induction idxs) auto

lemma collect_samples_nonempty:
  assumes "collect_samples ys idxs = Inr all" and "idxs \<noteq> []" and "\<forall>i \<in> set idxs. ys ! i \<noteq> []"
  shows "all \<noteq> []"
  using assms by (cases idxs) (auto split: if_splits sum.splits)

lemma voltage_indices_visible:
  "set (voltage_indices w) \<subseteq> set (visible_indices w)"
  "visible_indices w \<noteq> [] \<Longrightarrow> voltage_indices w \<noteq> []"
  by (auto simp: voltage_indices_def Let_def)

lemma enumerate_snd: "(rank, idx) \<in> set (enumerate n xs) \<Longrightarrow> idx \<in> set xs"
  by (auto simp: in_set_enumerate_eq)

lemma plot_timing_levels_succeeds:
  assumes "has_axes w" and "obj_dataext_x w \<noteq> []"
    and "\<forall>i \<in> set (visible_indices w). i < length (obj_dataext_NBList w) \<and>
            i < length (obj_dataext_y w) \<and>
            length (obj_dataext_y w ! i) = length (obj_dataext_x w)"
  shows "\<exists>w'. plot_timing_levels vmax w = Inr w'"
proof -
  let ?thr = "if threshold_spinbox_value w = threshold_spinbox_minimum
              then 0.7 * vmax else threshold_spinbox_value w"
  let ?w2 = "w\<lparr> logic_threshold := Some ?thr,
               axes_xlim := Some (hd (obj_dataext_x w), last (obj_dataext_x w)) \<rparr>"
  have "\<forall>(rank, idx) \<in> set (enumerate 0 (rev (visible_indices w))).
          idx < length (obj_dataext_y ?w2) \<and> idx < length (obj_dataext_NBList ?w2) \<and>
          length (obj_dataext_y ?w2 ! idx) = length (obj_dataext_x w)"
    using assms(3) by (auto dest!: enumerate_snd)
  from plot_timing_traces_succeeds [OF this assms(2)]
  obtain acc' where "plot_timing_traces vmax (vertical_spacing w * vmax) ?thr (obj_dataext_x w)
      (0.01 * (last (obj_dataext_x w) - hd (obj_dataext_x w)))
      (enumerate 0 (rev (visible_indices w))) ([], [], ?w2) = Inr acc'"
    by blast
  then show ?thesis
    using assms(1,2)
    unfolding plot_timing_levels_def Let_def
    by (cases acc') (simp split: if_splits)
qed

lemma plot_timing_diagram_succeeds:
  assumes "has_axes w" and "obj_dataext_x w \<noteq> []"
    and "\<forall>i \<in> set (visible_indices w). i < length (obj_dataext_NBList w) \<and>
            i < length (obj_dataext_y w) \<and>
            length (obj_dataext_y w ! i) = length (obj_dataext_x w)"
  shows "\<exists>w'. plot_timing_diagram w = Inr w'"
proof (cases "visible_indices w = []")
  case True
  then show ?thesis by (simp add: plot_timing_diagram_def)
next
  case False
  from assms(3) voltage_indices_visible(1) [of w]
  have v: "\<forall>i \<in> set (voltage_indices w). i < length (obj_dataext_y w)"
    and ln: "\<forall>i \<in> set (voltage_indices w). length (obj_dataext_y w ! i) = length (obj_dataext_x w)"
    by auto
  from ln assms(2) have ne: "\<forall>i \<in> set (voltage_indices w). obj_dataext_y w ! i \<noteq> []"
    by auto
  from collect_samples_succeeds [OF v] obtain all
    where c: "collect_samples (obj_dataext_y w) (voltage_indices w) = Inr all"
    by blast
  from collect_samples_nonempty [OF c voltage_indices_visible(2) [OF False] ne]
  obtain a as where all: "all = a # as" by (cases all) auto
  from plot_timing_levels_succeeds [OF assms, of "fold max as a"]
  obtain w' where "plot_timing_levels (fold max as a) w = Inr w'" by blast
  then show ?thesis
    using False c all by (simp add: plot_timing_diagram_def)
qed
lemma timing_traces_drawn:
  assumes "distinct (map fst (trace_visibility w))"
    and "plot_timing_diagram w = Inr w'"
    and "visible_indices w \<noteq> []"
    and "thr = (if threshold_spinbox_value w = threshold_spinbox_minimum
                then 0.7 * global_max w else threshold_spinbox_value w)"
  shows "logic_threshold w' = Some thr"
    and "r < length (visible_indices w) \<Longrightarrow>
         \<exists>line. map_of (active_traces w')
                  (visible_indices w ! (length (visible_indices w) - Suc r)) = Some line \<and>
                steps_post line \<and>
                ydata line =
                  map (\<lambda>raw. (if raw > thr then global_max w else 0)
                               + real r * (vertical_spacing w * global_max w))
                      (obj_dataext_y w ! (visible_indices w ! (length (visible_indices w) - Suc r)))"
    and "i \<notin> set (visible_indices w) \<Longrightarrow>
         (map_of (active_traces w') i = None) = (map_of (active_traces w) i = None)"
proof -
  let ?w2 = "w\<lparr> logic_threshold := Some thr,
               axes_xlim := Some (hd (obj_dataext_x w), last (obj_dataext_x w)) \<rparr>"
  from plot_timing_levels_result [OF plot_timing_diagram_levels [OF assms(1,2,3)]]
  obtain yt yl w3 ylim
    where loop: "plot_timing_traces (global_max w) (vertical_spacing w * global_max w) thr
             (obj_dataext_x w)
             (0.01 * (last (obj_dataext_x w) - hd (obj_dataext_x w)))
             (enumerate 0 (rev (visible_indices w))) ([], [], ?w2)
             = Inr (yt, yl, w3)"
      and t: "logic_threshold w' = logic_threshold w3"
      and act: "active_traces w' =
             active_traces (set_time_axis_label
               (w3\<lparr> axes_ylim := ylim, axes_yticks := yt, axes_yticklabels := yl \<rparr>))"
    unfolding assms(4) by blast
  have d: "distinct (rev (visible_indices w))"
    using distinct_visible_indices [OF assms(1)] by simp
  note L = plot_timing_traces_loop [OF loop d]
  from L have "logic_threshold w3 = Some thr" by simp
  with t show "logic_threshold w' = Some thr" by simp
  have yd: "map_option ydata (map_of (active_traces w') j)
              = map_option ydata (map_of (active_traces w3) j)"
    and sp: "map_option steps_post (map_of (active_traces w') j)
              = map_option steps_post (map_of (active_traces w3) j)" for j
    unfolding act by (simp_all add: set_time_axis_label_traces)
  show "\<exists>line. map_of (active_traces w')
                  (visible_indices w ! (length (visible_indices w) - Suc r)) = Some line \<and>
                steps_post line \<and>
                ydata line =
                  map (\<lambda>raw. (if raw > thr then global_max w else 0)
                               + real r * (vertical_spacing w * global_max w))
                      (obj_dataext_y w ! (visible_indices w ! (length (visible_indices w) - Suc r)))"
    if r: "r < length (visible_indices w)"
  proof -
    let ?idx = "visible_indices w ! (length (visible_indices w) - Suc r)"
    have idx: "rev (visible_indices w) ! r = ?idx" using r by (rule rev_nth)
    from r have "r < length (rev (visible_indices w))" by simp
    with L obtain line where l3: "map_of (active_traces w3) (rev (visible_indices w) ! r) = Some line"
      and s3: "steps_post line"
      and y3: "ydata line = map (\<lambda>raw. (if raw > thr then global_max w else 0)
                                      + real (0 + r) * (vertical_spacing w * global_max w))
                             (obj_dataext_y ?w2 ! (rev (visible_indices w) ! r))"
      by blast
    from yd [of ?idx] l3 obtain line' where l': "map_of (active_traces w') ?idx = Some line'"
      and y': "ydata line' = ydata line"
      unfolding idx by (cases "map_of (active_traces w') ?idx") auto
    from sp [of ?idx] l3 l' have s': "steps_post line' = steps_post line"
      unfolding idx by simp
    from l' s' s3 y' y3 show ?thesis unfolding idx by simp
  qed
  show "(map_of (active_traces w') i = None) = (map_of (active_traces w) i = None)"
    if "i \<notin> set (visible_indices w)"
  proof -
    from that have "i \<notin> set (rev (visible_indices w))" by simp
    with L have "map_of (active_traces w3) i = map_of (active_traces ?w2) i" by blast
    then have "map_of (active_traces w3) i = map_of (active_traces w) i" by simp
    with yd [of i] show ?thesis
      by (cases "map_of (active_traces w') i"; cases "map_of (active_traces w) i") simp_all
  qed
qed

text \<open>
  Claim C1. Take a window with axes and a non-empty time axis, in which every trace that
  the registry \<^verbatim>\<open>trace_visibility\<close> marks visible has a name and as many samples as the
  time axis. Let \<open>vis\<close> be the visible traces in registry order and \<open>thr\<close> the threshold
  in force. Then the timing diagram is drawn, and rank \<open>r\<close> belongs to the visible trace
  \<open>r\<close> places from the end of \<open>vis\<close>, so the last visible trace has rank 0: the line
  drawn for that trace is a step-after polyline whose y-value at every sample is
  \<open>globalMax\<close> when the raw sample exceeds the threshold and \<open>0\<close> otherwise, plus \<open>r\<close>
  times the spacing, the spacing being the vertical spacing factor times \<open>globalMax\<close>.
  For a trace that is not visible no line is added.
\<close>

theorem timing_traces_stacked:
  assumes "distinct (map fst (trace_visibility w))"
    and "vis = map fst (filter snd (trace_visibility w))"
    and "has_axes w" and "obj_dataext_x w \<noteq> []"
    and "\<forall>i \<in> set vis. i < length (obj_dataext_NBList w) \<and>
            i < length (obj_dataext_y w) \<and>
            length (obj_dataext_y w ! i) = length (obj_dataext_x w)"
    and "thr = (if threshold_spinbox_value w = threshold_spinbox_minimum
                then 0.7 * global_max w else threshold_spinbox_value w)"
    and "r < length vis"
  shows "\<exists>w' line.
           plot_timing_diagram w = Inr w' \<and>
           logic_threshold w' = Some thr \<and>
           map_of (active_traces w') (vis ! (length vis - Suc r)) = Some line \<and>
           steps_post line \<and>
           ydata line =
             map (\<lambda>raw. (if raw > thr then global_max w else 0)
                          + real r * (vertical_spacing w * global_max w))
                 (obj_dataext_y w ! (vis ! (length vis - Suc r))) \<and>
           (\<forall>i. i \<notin> set vis \<longrightarrow>
                (map_of (active_traces w') i = None) = (map_of (active_traces w) i = None))"
proof -
  have vis: "vis = visible_indices w" unfolding assms(2) visible_indices_def ..
  from assms(7) have ne: "visible_indices w \<noteq> []" unfolding vis by auto
  from plot_timing_diagram_succeeds [OF assms(3,4) assms(5) [unfolded vis]]
  obtain w' where e: "plot_timing_diagram w = Inr w'" by blast
  note D = timing_traces_drawn [OF assms(1) e ne assms(6)]
  from D(2) [OF assms(7) [unfolded vis]]
  obtain line where "map_of (active_traces w') (vis ! (length vis - Suc r)) = Some line"
    "steps_post line"
    "ydata line =
       map (\<lambda>raw. (if raw > thr then global_max w else 0)
                    + real r * (vertical_spacing w * global_max w))
           (obj_dataext_y w ! (vis ! (length vis - Suc r)))"
    unfolding vis by blast
  with e D(1) D(3) show ?thesis unfolding vis by blast
qed

text \<open>The example of the claim, with a hidden trace between the two visible ones: \<open>A\<close>
  and \<open>B\<close> visible, \<open>globalMax = 5\<close> (the higher samples of the hidden trace do not
  count), spacing factor 1.2, so a spacing of 6. \<open>B\<close>, the last visible trace, is drawn
  first and from the baseline 0, \<open>A\<close> from the baseline 6, and the hidden trace is not
  drawn.\<close>

theorem timing_traces_stacked_witness:
  "distinct (map fst (trace_visibility timing_window)) \<and>
   map fst (filter snd (trace_visibility timing_window)) = [0, 2] \<and>
   has_axes timing_window \<and>
   obj_dataext_x timing_window \<noteq> [] \<and>
   list_all (\<lambda>i. i < length (obj_dataext_NBList timing_window) \<and>
                 i < length (obj_dataext_y timing_window) \<and>
                 length (obj_dataext_y timing_window ! i) = length (obj_dataext_x timing_window))
     [0, 2] \<and>
   global_max timing_window = 5 \<and>
   vertical_spacing timing_window * global_max timing_window = 6 \<and>
   map fst (active_traces (projr (plot_timing_diagram timing_window))) = [2, 0] \<and>
   map_option ydata
     (map_of (active_traces (projr (plot_timing_diagram timing_window))) 2)
     = Some [5, 0, 5] \<and>
   map_option ydata
     (map_of (active_traces (projr (plot_timing_diagram timing_window))) 0)
     = Some [6, 11, 11]"
proof -
  let ?w = timing_window
  let ?w' = "projr (plot_timing_diagram ?w)"
  have d: "distinct (map fst (trace_visibility ?w))" by code_simp
  have vis: "map fst (filter snd (trace_visibility ?w)) = [0, 2]" by code_simp
  have ha: "has_axes ?w" by code_simp
  have xn: "obj_dataext_x ?w \<noteq> []" by code_simp
  have wl: "list_all (\<lambda>i. i < length (obj_dataext_NBList ?w) \<and> i < length (obj_dataext_y ?w) \<and>
                          length (obj_dataext_y ?w ! i) = length (obj_dataext_x ?w)) [0, 2]"
    by code_simp
  then have wf: "\<forall>i \<in> set [0, 2]. i < length (obj_dataext_NBList ?w) \<and>
                   i < length (obj_dataext_y ?w) \<and>
                   length (obj_dataext_y ?w ! i) = length (obj_dataext_x ?w)"
    by (simp add: list_all_iff)
  have gm: "global_max ?w = 5" by code_simp
  have vs: "vertical_spacing ?w = 12 / 10" by code_simp
  have ys: "obj_dataext_y ?w = [[0, 5, 2], [9, 9, 9], [5, 0, 4]]" by code_simp
  have thr: "(0 :: real) = (if threshold_spinbox_value ?w = threshold_spinbox_minimum
                            then 0.7 * global_max ?w else threshold_spinbox_value ?w)"
    by code_simp
  have keys: "map fst (active_traces ?w') = [2, 0]" by code_simp
  have b: "map_option ydata (map_of (active_traces ?w') 2) = Some [5, 0, 5]" by code_simp
  have r: "1 < length [0, 2 :: nat]" by simp
  from timing_traces_stacked [OF d vis [symmetric] ha xn wf thr r]
  obtain w' line where e: "plot_timing_diagram ?w = Inr w'"
    and l: "map_of (active_traces w') ([0, 2] ! (length [0, 2 :: nat] - Suc 1)) = Some line"
    and y: "ydata line =
              map (\<lambda>raw. (if raw > 0 then global_max ?w else 0)
                           + real 1 * (vertical_spacing ?w * global_max ?w))
                  (obj_dataext_y ?w ! ([0, 2] ! (length [0, 2 :: nat] - Suc 1)))"
    by blast
  from e have w': "w' = ?w'" by simp
  have "ydata line = [6, 11, 11]"
    unfolding y gm vs ys by simp
  with l have a: "map_option ydata (map_of (active_traces ?w') 0) = Some [6, 11, 11]"
    unfolding w' by simp
  have sp: "vertical_spacing ?w * global_max ?w = 6" unfolding gm vs by simp
  show ?thesis
    by (intro conjI)
       (rule d, rule vis, rule ha, rule xn, rule wl, rule gm, rule sp, rule keys, rule b, rule a)
qed

lemma plot_timing_diagram_forgets_threshold:
  assumes "visible_indices w \<noteq> []"
  shows "plot_timing_diagram (w\<lparr> logic_threshold := t \<rparr>) = plot_timing_diagram w"
proof -
  have v: "visible_indices (w\<lparr> logic_threshold := t \<rparr>) = visible_indices w"
    by (simp add: visible_indices_def)
  have c: "voltage_indices (w\<lparr> logic_threshold := t \<rparr>) = voltage_indices w"
    by (simp add: voltage_indices_def Let_def v)
  have l: "plot_timing_levels vmax (w\<lparr> logic_threshold := t \<rparr>) = plot_timing_levels vmax w" for vmax
    by (simp add: plot_timing_levels_def Let_def v split: sum.splits prod.splits)
  show ?thesis
    using assms by (simp add: plot_timing_diagram_def v c l split: sum.splits)
qed

text \<open>The auto branch of the code: with the spin box at its minimum, where it shows
  \<^verbatim>\<open>Auto\<close>, the threshold is \<open>0.7 * globalMax\<close>; the threshold stored by an earlier
  drawing plays no part.\<close>

lemma timing_threshold_at_minimum:
  assumes "distinct (map fst (trace_visibility w))"
    and "threshold_spinbox_value w = threshold_spinbox_minimum"
    and "vis = map fst (filter snd (trace_visibility w))" and "vis \<noteq> []"
    and "has_axes w" and "obj_dataext_x w \<noteq> []"
    and "\<forall>i \<in> set vis. i < length (obj_dataext_NBList w) \<and>
            i < length (obj_dataext_y w) \<and>
            length (obj_dataext_y w ! i) = length (obj_dataext_x w)"
  shows "\<exists>w'. plot_timing_diagram w = Inr w' \<and>
              logic_threshold w' = Some (0.7 * global_max w) \<and>
              (\<forall>t. plot_timing_diagram (w\<lparr> logic_threshold := t \<rparr>) = Inr w')"
proof -
  have vis: "vis = visible_indices w" unfolding assms(3) visible_indices_def ..
  from assms(4) have ne: "visible_indices w \<noteq> []" unfolding vis .
  from plot_timing_diagram_succeeds [OF assms(5,6) assms(7) [unfolded vis]]
  obtain w' where e: "plot_timing_diagram w = Inr w'" by blast
  have "0.7 * global_max w = (if threshold_spinbox_value w = threshold_spinbox_minimum
                              then 0.7 * global_max w else threshold_spinbox_value w)"
    using assms(2) by simp
  from timing_traces_drawn(1) [OF assms(1) e ne this]
  have "logic_threshold w' = Some (0.7 * global_max w)" .
  moreover have "plot_timing_diagram (w\<lparr> logic_threshold := t \<rparr>) = Inr w'" for t
    using plot_timing_diagram_forgets_threshold [OF ne] e by simp
  ultimately show ?thesis using e by blast
qed

text \<open>Once the user has brought the spin box of the example window down to its minimum,
  the threshold is 3.5 and the sample 2 of \<open>A\<close> counts as low.\<close>

lemma timing_threshold_at_minimum_example:
  "map_sum id (\<lambda>w. (logic_threshold w, map_option ydata (map_of (active_traces w) 0)))
     (plot_timing_diagram
        (timing_window\<lparr> threshold_spinbox_value := threshold_spinbox_minimum \<rparr>))
   = Inr (Some 3.5, Some [6, 11, 6])"
  by code_simp

text \<open>
  Claim C2 says that the threshold is \<open>0.7 * globalMax\<close> whenever no user value has been
  explicitly set. The code takes that branch when the spin box stands at its minimum,
  and the constructor leaves the spin box at 0.0. In the example window nobody has
  touched the spin box and \<open>globalMax\<close> is 5: the threshold used, stored and drawn is
  0.0 and not 3.5, and the sample 2 of \<open>A\<close> is drawn as high.
\<close>

theorem timing_threshold_fresh_window:
  "threshold_spinbox_value timing_window = 0 \<and>
   threshold_spinbox_minimum = - 100 \<and>
   global_max timing_window = 5 \<and>
   map_sum id (\<lambda>w. (logic_threshold w, axes_threshold_line w,
                     map_option ydata (map_of (active_traces w) 0)))
     (plot_timing_diagram timing_window)
   = Inr (Some 0, Some 0, Some [6, 11, 11])"
  by code_simp

subsection \<open>Functions of traces\<close>

lemma parse_chain_Nil: "parse_chain rest = Some [] \<Longrightarrow> rest = []"
  by (induction rest rule: parse_chain.induct) (auto split: option.splits)

lemma parse_chain_Cons:
  "parse_chain rest = Some ((b, a) # ops) \<Longrightarrow>
   \<exists>s rest'. rest = Sym s # Num a # rest' \<and> binop_of s = Some b \<and> parse_chain rest' = Some ops"
  by (induction rest rule: parse_chain.induct) (auto split: option.splits)

lemma binop_of_four:
  "binop_of s = Some b \<Longrightarrow> s \<in> {''+'', ''-'', ''*'', ''/''} \<Longrightarrow>
   (b = Add \<and> s = ''+'') \<or> (b = Sub \<and> s = ''-'') \<or> (b = Mul \<and> s = ''*'') \<or> (b = Div \<and> s = ''/'')"
  by (auto simp: binop_of_def split: if_splits)

lemma binop_of_four_Some:
  "s \<in> {''+'', ''-'', ''*'', ''/''} \<Longrightarrow> \<exists>b. binop_of s = Some b"
  by (auto simp: binop_of_def)

lemma operand_parts_length: "length (operand_parts ps) = (length ps + 1) div 2"
  by (induction ps rule: operand_parts.induct) simp_all

lemma find_trace_indices_length:
  "length (find_trace_indices NBList parts) \<le> (length parts + 1) div 2"
proof -
  have "length (find_trace_indices NBList parts) \<le> length (operand_parts parts)"
    unfolding find_trace_indices_def List.map_filter_def by simp
  then show ?thesis by (simp add: operand_parts_length)
qed

lemma accepted_odd:
  assumes "length (find_trace_indices NBList parts) = length parts div 2 + 1"
  shows "odd (length parts)"
proof -
  from find_trace_indices_length [of NBList parts] assms
  have "length parts div 2 + 1 \<le> (length parts + 1) div 2" by simp
  then show ?thesis by presburger
qed

lemma parse_chain_operators:
  "odd n \<Longrightarrow> even (length ps) \<Longrightarrow>
   set (operator_parts (p0 # ps)) \<subseteq> {''+'', ''-'', ''*'', ''/''} \<Longrightarrow>
   \<exists>ops. parse_chain (map (\<lambda>(i, p). if even i then Num (f i) else Sym p) (enumerate n ps))
           = Some ops"
proof (induction ps arbitrary: n p0 rule: operand_parts.induct)
  case 1
  then show ?case by simp
next
  case (2 p)
  then show ?case by simp
next
  case (3 p q ps)
  from "3.prems"(3) have p: "p \<in> {''+'', ''-'', ''*'', ''/''}"
    and rest: "set (operator_parts (q # ps)) \<subseteq> {''+'', ''-'', ''*'', ''/''}"
    by simp_all
  from binop_of_four_Some [OF p] obtain b where b: "binop_of p = Some b" by blast
  from "3.prems"(1) have o: "odd (Suc (Suc n))" by simp
  from "3.prems"(2) have e: "even (length ps)" by simp
  from "3.IH" [OF o e rest] obtain ops
    where "parse_chain (map (\<lambda>(i, p). if even i then Num (f i) else Sym p)
                            (enumerate (Suc (Suc n)) ps)) = Some ops"
    by blast
  with b "3.prems"(1) show ?case by simp
qed

lemma eval_chain_ast:
  assumes "parse_chain rest = Some ops"
    and "\<forall>s. Sym s \<in> set rest \<longrightarrow> s \<in> {''+'', ''-'', ''*'', ''/''}"
    and "eval_chain acc sg cur ops = Inr v"
    and "is_term T" and "aval T = Some cur"
    and "\<And>T' c. is_term T' \<Longrightarrow> aval T' = Some c \<Longrightarrow>
           is_expr (K T') \<and> flatten (K T') = P @ flatten T' \<and> aval (K T') = Some (acc + sg * c)"
  shows "\<exists>e. is_expr e \<and> flatten e = P @ flatten T @ rest \<and> aval e = Some v"
  using assms
proof (induction ops arbitrary: rest acc sg cur T K P)
  case Nil
  then have "rest = []" by (simp add: parse_chain_Nil)
  moreover from Nil.prems(3) have "v = acc + sg * cur" by simp
  ultimately show ?case using Nil.prems(6) [OF Nil.prems(4) Nil.prems(5)] by auto
next
  case (Cons x ops)
  obtain b a where x: "x = (b, a)" by (cases x) auto
  from parse_chain_Cons [OF Cons.prems(1) [unfolded x]]
  obtain s rest' where rest: "rest = Sym s # Num a # rest'"
    and b: "binop_of s = Some b" and p': "parse_chain rest' = Some ops"
    by blast
  from Cons.prems(2) rest have four: "s \<in> {''+'', ''-'', ''*'', ''/''}"
    and four': "\<forall>s. Sym s \<in> set rest' \<longrightarrow> s \<in> {''+'', ''-'', ''*'', ''/''}"
    by simp_all
  note K = Cons.prems(6)
  from K [OF Cons.prems(4) Cons.prems(5)]
  have KT1: "is_expr (K T)" and KT2: "flatten (K T) = P @ flatten T"
    and KT3: "aval (K T) = Some (acc + sg * cur)"
    by simp_all
  have la: "is_term (Lit a)" "aval (Lit a) = Some a" by simp_all
  from binop_of_four [OF b four]
  consider (add) "b = Add" "s = ''+''" | (sub) "b = Sub" "s = ''-''"
    | (mul) "b = Mul" "s = ''*''" | (div) "b = Div" "s = ''/''"
    by blast
  then show ?case
  proof cases
    case add
    from Cons.prems(3) have ev: "eval_chain (acc + sg * cur) 1 a ops = Inr v"
      unfolding x add by simp
    have K': "is_expr (Plus (K T) T') \<and>
              flatten (Plus (K T) T') = (P @ flatten T @ [Sym ''+'']) @ flatten T' \<and>
              aval (Plus (K T) T') = Some ((acc + sg * cur) + 1 * c)"
      if "is_term T'" "aval T' = Some c" for T' c
      using that KT1 KT2 KT3 by simp
    have "\<exists>e. is_expr e \<and> flatten e = (P @ flatten T @ [Sym ''+'']) @ flatten (Lit a) @ rest' \<and>
              aval e = Some v"
      by (rule Cons.IH [where K = "\<lambda>T'. Plus (K T) T'", OF p' four' ev la K'])
    then show ?thesis unfolding rest add by simp
  next
    case sub
    from Cons.prems(3) have ev: "eval_chain (acc + sg * cur) (- 1) a ops = Inr v"
      unfolding x sub by simp
    have K': "is_expr (Minus (K T) T') \<and>
              flatten (Minus (K T) T') = (P @ flatten T @ [Sym ''-'']) @ flatten T' \<and>
              aval (Minus (K T) T') = Some ((acc + sg * cur) + (- 1) * c)"
      if "is_term T'" "aval T' = Some c" for T' c
      using that KT1 KT2 KT3 by simp
    have "\<exists>e. is_expr e \<and> flatten e = (P @ flatten T @ [Sym ''-'']) @ flatten (Lit a) @ rest' \<and>
              aval e = Some v"
      by (rule Cons.IH [where K = "\<lambda>T'. Minus (K T) T'", OF p' four' ev la K'])
    then show ?thesis unfolding rest sub by simp
  next
    case mul
    from Cons.prems(3) have ev: "eval_chain acc sg (cur * a) ops = Inr v"
      unfolding x mul by simp
    have t: "is_term (Times T (Lit a))" "aval (Times T (Lit a)) = Some (cur * a)"
      using Cons.prems(4,5) by simp_all
    have "\<exists>e. is_expr e \<and> flatten e = P @ flatten (Times T (Lit a)) @ rest' \<and> aval e = Some v"
      by (rule Cons.IH [where K = K, OF p' four' ev t K])
    then show ?thesis unfolding rest mul by simp
  next
    case div
    from Cons.prems(3) have nz: "a \<noteq> 0" and ev: "eval_chain acc sg (cur / a) ops = Inr v"
      unfolding x div by (simp_all split: if_splits)
    have t: "is_term (Divide T (Lit a))" "aval (Divide T (Lit a)) = Some (cur / a)"
      using Cons.prems(4,5) nz by simp_all
    have "\<exists>e. is_expr e \<and> flatten e = P @ flatten (Divide T (Lit a)) @ rest' \<and> aval e = Some v"
      by (rule Cons.IH [where K = K, OF p' four' ev t K])
    then show ?thesis unfolding rest div by simp
  qed
qed

lemma py_eval_chain:
  "parse_chain rest = Some ops \<Longrightarrow> py_eval eval_other (Num a # rest) = eval_chain 0 1 a ops"
  by (simp add: py_eval_def)

lemma chain_four_operators:
  assumes "parse_chain rest = Some ops"
    and "eval_chain 0 1 a ops = Inr v"
    and "\<forall>s. Sym s \<in> set rest \<longrightarrow> s \<in> {''+'', ''-'', ''*'', ''/''}"
  shows "\<exists>e. is_expr e \<and> flatten e = Num a # rest \<and> aval e = Some v"
proof -
  have la: "is_term (Lit a)" "aval (Lit a) = Some a" by simp_all
  have K: "is_expr T' \<and> flatten T' = [] @ flatten T' \<and> aval T' = Some (0 + 1 * c)"
    if "is_term T'" "aval T' = Some c" for T' c
    using that by (cases T') simp_all
  have "\<exists>e. is_expr e \<and> flatten e = [] @ flatten (Lit a) @ rest \<and> aval e = Some v"
    by (rule eval_chain_ast [where K = "\<lambda>T'. T'", OF assms(1) assms(3) assms(2) la K])
  then show ?thesis by simp
qed

lemma substituted_Cons:
  "substituted (p # ps) samples j =
     Num (samples ! 0 ! j) #
     map (\<lambda>(i, p). if even i then Num (samples ! (i div 2) ! j) else Sym p) (enumerate 1 ps)"
  unfolding substituted_def by simp

lemma expression_parts_substituted:
  assumes "expression_parts combo j i ps = Inr toks"
    and "\<forall>k < length ps. even (i + k) \<longrightarrow> (i + k) div 2 < length combo"
  shows "toks = map (\<lambda>(i, p). if even i then Num (combo ! (i div 2) ! j) else Sym p)
                    (enumerate i ps)"
  using assms
proof (induction ps arbitrary: i toks)
  case Nil
  then show ?case by simp
next
  case (Cons p ps)
  have rest: "\<forall>k < length ps. even (Suc i + k) \<longrightarrow> (Suc i + k) div 2 < length combo"
  proof (intro allI impI)
    fix k assume "k < length ps" "even (Suc i + k)"
    then have "Suc k < length (p # ps)" "even (i + Suc k)" by simp_all
    with Cons.prems(2) have "(i + Suc k) div 2 < length combo" by blast
    then show "(Suc i + k) div 2 < length combo" by simp
  qed
  from Cons.prems(2) have here: "even i \<longrightarrow> i div 2 < length combo" by fastforce
  from Cons.prems(1) obtain ts
    where r: "expression_parts combo j (Suc i) ps = Inr ts"
      and t: "toks = (if even i then Num (combo ! (i div 2) ! j) else Sym p) # ts"
    using here by (auto split: if_splits sum.splits)
  from Cons.IH [OF r rest] t show ?case by simp
qed

lemma substituted_operators:
  "Sym s \<in> set (map (\<lambda>(i, p). if even i then Num (f i) else Sym p) (enumerate n ps)) \<Longrightarrow>
   even n \<Longrightarrow> s \<in> set (operator_parts ps)"
proof (induction ps arbitrary: n rule: operator_parts.induct)
  case 1
  then show ?case by simp
next
  case (2 p)
  then show ?case by simp
next
  case (3 p q ps)
  from "3.prems" have "s = q \<or>
      Sym s \<in> set (map (\<lambda>(i, p). if even i then Num (f i) else Sym p) (enumerate (Suc (Suc n)) ps))"
    by auto
  then show ?case
  proof
    assume "s = q" then show ?thesis by simp
  next
    assume "Sym s \<in> set (map (\<lambda>(i, p). if even i then Num (f i) else Sym p) (enumerate (Suc (Suc n)) ps))"
    from "3.IH" [OF this] "3.prems"(2) show ?thesis by simp
  qed
qed

lemma evaluate_samples_Inr:
  assumes "evaluate_samples eval_other combo parts js = Inr ys"
  shows "length ys = length js \<and>
         (\<forall>k < length js. \<exists>toks. expression_parts combo (js ! k) 0 parts = Inr toks \<and>
                                 py_eval eval_other toks = Inr (ys ! k))"
  using assms
proof (induction js arbitrary: ys)
  case Nil
  then show ?case by simp
next
  case (Cons j js)
  from Cons.prems obtain toks v vs
    where e: "expression_parts combo j 0 parts = Inr toks"
      and p: "py_eval eval_other toks = Inr v"
      and r: "evaluate_samples eval_other combo parts js = Inr vs"
      and ys: "ys = v # vs"
    by (auto split: sum.splits)
  from Cons.IH [OF r] have l: "length vs = length js"
    and rest: "\<And>k. k < length js \<Longrightarrow> \<exists>toks. expression_parts combo (js ! k) 0 parts = Inr toks \<and>
                                 py_eval eval_other toks = Inr (vs ! k)"
    by simp_all
  have "\<exists>toks. expression_parts combo ((j # js) ! k) 0 parts = Inr toks \<and>
               py_eval eval_other toks = Inr (ys ! k)" if "k < length (j # js)" for k
  proof (cases k)
    case 0
    with e p ys show ?thesis by simp
  next
    case (Suc k')
    with that have "k' < length js" by simp
    from rest [OF this] Suc ys show ?thesis by simp
  qed
  with l ys show ?case by simp
qed

lemma plot_function_Plotted:
  assumes "plot_function eval_other txt w = Inr (Plotted xs ys label)"
  shows "length (find_trace_indices (obj_dataext_NBList w) (function_parts txt))
           = length (function_parts txt) div 2 + 1 \<and>
         evaluate_samples eval_other (operand_samples txt w) (function_parts txt)
           [0 ..< length (operand_samples txt w ! 0)] = Inr ys \<and>
         xs = obj_dataext_x w \<and> label = join_space (function_parts txt)"
  using assms
  unfolding plot_function_def operand_samples_def Let_def
  by (simp split: if_splits sum.splits)

lemma operand_position:
  "k < n \<Longrightarrow> even k \<Longrightarrow> k div 2 < n div 2 + 1" for k n :: nat
  by (simp add: div_le_mono less_Suc_eq_le)

text \<open>
  Claim C3, as the code has it. When every operator part of an accepted function text
  is one of \<^verbatim>\<open>+\<close>, \<^verbatim>\<open>-\<close>, \<^verbatim>\<open>*\<close>, \<^verbatim>\<open>/\<close>, the series handed to the render surface has
  one value per sample of the first operand, and the value at index \<open>j\<close> is the value of
  an expression of the four-operator grammar that is written exactly as the operator
  expression with every operand replaced by its sample at \<open>j\<close>.
\<close>

theorem plot_function_four_operators:
  assumes "set (operator_parts (function_parts txt)) \<subseteq> {''+'', ''-'', ''*'', ''/''}"
    and "plot_function eval_other txt w = Inr (Plotted xs ys label)"
  shows "length ys = length (operand_samples txt w ! 0) \<and>
         (\<forall>j < length ys.
            \<exists>e. is_expr e \<and>
                flatten e = substituted (function_parts txt) (operand_samples txt w) j \<and>
                aval e = Some (ys ! j))"
proof -
  let ?parts = "function_parts txt"
  let ?combo = "operand_samples txt w"
  let ?n = "length (?combo ! 0)"
  from plot_function_Plotted [OF assms(2)]
  have len: "length (find_trace_indices (obj_dataext_NBList w) ?parts) = length ?parts div 2 + 1"
    and ev: "evaluate_samples eval_other ?combo ?parts [0 ..< ?n] = Inr ys"
    by simp_all
  have lc: "length ?combo = length ?parts div 2 + 1"
    using len by (simp add: operand_samples_def)
  have pos: "\<forall>k < length ?parts. even (0 + k) \<longrightarrow> (0 + k) div 2 < length ?combo"
    unfolding lc using operand_position by simp
  from accepted_odd [OF len] obtain p ps where parts: "?parts = p # ps"
    by (cases ?parts) auto
  from accepted_odd [OF len] have eps: "even (length ps)" unfolding parts by simp
  from evaluate_samples_Inr [OF ev]
  have ly: "length ys = ?n"
    and each: "\<And>k. k < ?n \<Longrightarrow> \<exists>toks. expression_parts ?combo ([0 ..< ?n] ! k) 0 ?parts = Inr toks \<and>
                                 py_eval eval_other toks = Inr (ys ! k)"
    by simp_all
  have "\<exists>e. is_expr e \<and> flatten e = substituted ?parts ?combo j \<and> aval e = Some (ys ! j)"
    if "j < length ys" for j
  proof -
    let ?rest = "map (\<lambda>(i, p). if even i then Num (?combo ! (i div 2) ! j) else Sym p)
                     (enumerate 1 ps)"
    from that ly have j: "j < ?n" by simp
    from each [OF j] j obtain toks
      where ex: "expression_parts ?combo j 0 ?parts = Inr toks"
        and pe: "py_eval eval_other toks = Inr (ys ! j)"
      by auto
    have toks: "toks = substituted ?parts ?combo j"
      unfolding substituted_def by (rule expression_parts_substituted [OF ex pos])
    have sub: "substituted ?parts ?combo j = Num (?combo ! 0 ! j) # ?rest"
      unfolding parts by (rule substituted_Cons)
    have four: "\<forall>s. Sym s \<in> set ?rest \<longrightarrow> s \<in> {''+'', ''-'', ''*'', ''/''}"
    proof (intro allI impI)
      fix s assume "Sym s \<in> set ?rest"
      then have "Sym s \<in> set (substituted ?parts ?combo j)" unfolding sub by simp
      then have "s \<in> set (operator_parts ?parts)"
        unfolding substituted_def by (rule substituted_operators) simp
      with assms(1) show "s \<in> {''+'', ''-'', ''*'', ''/''}" by blast
    qed
    have "\<exists>ops. parse_chain ?rest = Some ops"
      by (rule parse_chain_operators [where ?p0.0 = p, OF _ eps assms(1) [unfolded parts]]) simp
    then obtain ops where pc: "parse_chain ?rest = Some ops" by blast
    from pe have "eval_chain 0 1 (?combo ! 0 ! j) ops = Inr (ys ! j)"
      unfolding toks sub py_eval_chain [OF pc] .
    from chain_four_operators [OF pc this four] show ?thesis unfolding sub .
  qed
  with ly show ?thesis by blast
qed

text \<open>The example of the specification: \<open>v1 + v2\<close> for \<open>v1 = [1, 2, 3]\<close> and
  \<open>v2 = [10, 20, 30]\<close> gives \<open>[11, 22, 33]\<close>. The evaluator for other strings is not
  consulted: here it is one that rejects them all.\<close>

theorem plot_function_four_operators_witness:
  "set (operator_parts (function_parts ''v1 + v2'')) \<subseteq> {''+'', ''-'', ''*'', ''/''} \<and>
   plot_function (\<lambda>ts. Inl SyntaxError) ''v1 + v2'' function_traces
     = Inr (Plotted [0, 1, 2] [11, 22, 33] ''v1 + v2'') \<and>
   substituted (function_parts ''v1 + v2'') (operand_samples ''v1 + v2'' function_traces) 1
     = [Num 2, Sym ''+'', Num 20] \<and>
   (\<exists>e. is_expr e \<and> flatten e = [Num 2, Sym ''+'', Num 20] \<and> aval e = Some 22)"
proof -
  have h: "set (operator_parts (function_parts ''v1 + v2'')) \<subseteq> {''+'', ''-'', ''*'', ''/''}"
    by code_simp
  have p: "plot_function (\<lambda>ts. Inl SyntaxError) ''v1 + v2'' function_traces
             = Inr (Plotted [0, 1, 2] [11, 22, 33] ''v1 + v2'')"
    by code_simp
  have s: "substituted (function_parts ''v1 + v2'') (operand_samples ''v1 + v2'' function_traces) 1
             = [Num 2, Sym ''+'', Num 20]"
    by code_simp
  have all: "\<forall>j < length [11, 22, 33 :: real].
            \<exists>e. is_expr e \<and>
                flatten e = substituted (function_parts ''v1 + v2'')
                              (operand_samples ''v1 + v2'' function_traces) j \<and>
                aval e = Some ([11, 22, 33] ! j)"
    using plot_function_four_operators [OF h p] by (rule conjunct2)
  have "(1 :: nat) < length [11, 22, 33 :: real]" by simp
  with all have "\<exists>e. is_expr e \<and>
            flatten e = substituted (function_parts ''v1 + v2'')
                          (operand_samples ''v1 + v2'' function_traces) 1 \<and>
            aval e = Some ([11, 22, 33] ! 1)"
    by blast
  then have e: "\<exists>e. is_expr e \<and> flatten e = [Num 2, Sym ''+'', Num 20] \<and> aval e = Some 22"
    unfolding s by simp
  show ?thesis by (intro conjI) (rule h, rule p, rule s, rule e)
qed

text \<open>
  Claim C3 as stated, that accepted input is evaluated with the four operators only, fails:
  the operator parts are not checked and the joined text goes to \<^verbatim>\<open>eval\<close>. The text
  \<^verbatim>\<open>v1 // v2\<close> is accepted and plotted with Python's floor division.
\<close>

theorem plot_function_floor_division_counterexample:
  "plot_function (\<lambda>ts. Inl SyntaxError) ''v1 // v2'' function_traces
     = Inr (Plotted [0, 1, 2] [0, 0, 0] ''v1 // v2'') \<and>
   operator_parts (function_parts ''v1 // v2'') = [''//''] \<and>
   ''//'' \<notin> set [''+'', ''-'', ''*'', ''/'']"
  by code_simp





text \<open>A zero sample under \<^verbatim>\<open>%\<close> raises the same arithmetic error and gives the same
  warning.\<close>

lemma plot_function_modulo_example:
  "plot_function (\<lambda>ts. Inl SyntaxError) ''v1 % v2'' function_traces_zero
     = Inr (Warning ''Division by zero or arithmetic error!'') \<and>
   plot_function (\<lambda>ts. Inl SyntaxError) ''v1 % v2'' function_traces
     = Inr (Plotted [0, 1, 2] [1, 2, 3] ''v1 % v2'')"
  by code_simp

end
